theory Spec2Isabelle
  imports Main "HOL-Library.Sublist"
begin

section \<open>Values, exceptions and dictionaries of builder.py\<close>

text \<open>
  The values that reach a template context are strings (\<open>path.Path\<close> is a subclass of
  \<open>str\<close>), integers (the ports) and \<open>None\<close> (a toolchain looked up with \<open>.get\<close>).
  A \<open>string\<close> stands for a Python \<open>str\<close> whose code points are all below 256; one
  \<open>char\<close> is one code point.
\<close>

datatype pyval = VStr string | VInt int | VNone

text \<open>
  Every exception the modelled code can raise is a value. \<open>Unmodelled\<close> marks the inputs
  that the model does not follow (format fields with a conversion, a format specification,
  an attribute or an index; paths that are not plain relative paths): the Python does
  something there that is not described here.
\<close>

datatype error =
    ValueError string
  | KeyError pyval
  | IndexError
  | TypeError
  | FileNotFoundError
  | FileExistsError
  | NotADirectoryError
  | IsADirectoryError
  | Unmodelled

text \<open>Truth value of a Python object, as \<open>if x:\<close> and \<open>not x\<close> read it.\<close>

fun truthy :: "pyval \<Rightarrow> bool" where
  "truthy (VStr s) = (s \<noteq> [])"
| "truthy (VInt i) = (i \<noteq> 0)"
| "truthy VNone = False"

text \<open>\<open>str(x)\<close>, which is what \<open>format\<close> writes for a field without specification.\<close>

function digits :: "int \<Rightarrow> string" where
  "digits n = (if n < 10 then [''0123456789'' ! nat n]
               else digits (n div 10) @ [''0123456789'' ! nat (n mod 10)])"
  by pat_completeness auto
termination
  by (relation "measure nat") auto

declare digits.simps [simp del]

fun str :: "pyval \<Rightarrow> string" where
  "str (VStr s) = s"
| "str (VInt i) = (if i < 0 then CHR ''-'' # digits (- i) else digits i)"
| "str VNone = ''None''"

text \<open>\<open>sep.join(xs)\<close>.\<close>

fun str_join :: "string \<Rightarrow> string list \<Rightarrow> string" where
  "str_join sep [] = []"
| "str_join sep [x] = x"
| "str_join sep (x # y # ys) = x @ sep @ str_join sep (y # ys)"

text \<open>
  A context (the \<open>**context\<close> keyword dictionary) is read by key only, so it is a map.
  \<open>dict_get\<close> is \<open>d.get(k)\<close>: \<open>None\<close> when the key is absent.
\<close>

type_synonym "context" = "string \<rightharpoonup> pyval"

definition dict_get :: "context \<Rightarrow> string \<Rightarrow> pyval" where
  "dict_get d k = (case d k of None \<Rightarrow> VNone | Some v \<Rightarrow> v)"

text \<open>
  The class-level tables are dictionary literals with string keys, kept as association
  lists in the order of the source. \<open>subscript t k\<close> is \<open>t[k]\<close>, which raises
  \<open>KeyError\<close>; a key that is not a string equals none of the keys.
\<close>

definition subscript :: "(string \<times> 'a) list \<Rightarrow> pyval \<Rightarrow> error + 'a" where
  "subscript t k =
     (case k of
        VStr s \<Rightarrow> (case map_of t s of None \<Rightarrow> Inl (KeyError k) | Some v \<Rightarrow> Inr v)
      | _ \<Rightarrow> Inl (KeyError k))"

text \<open>
  \<open>d[k] = v\<close> on a dictionary whose order matters (the registry, whose keys are
  listed in error messages): an existing key keeps its place, a new key goes last.
\<close>

fun dict_set :: "'k \<Rightarrow> 'v \<Rightarrow> ('k \<times> 'v) list \<Rightarrow> ('k \<times> 'v) list" where
  "dict_set k v [] = [(k, v)]"
| "dict_set k v ((k', v') # d) = (if k' = k then (k, v) # d else (k', v') # dict_set k v d)"

section \<open>slugify and paths\<close>

text \<open>
  \<open>re.sub(r'[^\w]', '-', string).lower()\<close>. For code points below 256 the class
  \<open>\w\<close> of a \<open>str\<close> pattern holds the ASCII letters and digits, the underscore, and
  the letters and numeric characters of Latin-1; \<open>lower\<close> moves the capital letters.
\<close>

definition is_word_char :: "char \<Rightarrow> bool" where
  "is_word_char c =
     (let n = (of_char c :: nat) in
        (48 \<le> n \<and> n \<le> 57) \<or> (65 \<le> n \<and> n \<le> 90) \<or> n = 95 \<or> (97 \<le> n \<and> n \<le> 122)
        \<or> n = 170 \<or> n = 178 \<or> n = 179 \<or> n = 181 \<or> n = 185 \<or> n = 186
        \<or> (188 \<le> n \<and> n \<le> 190) \<or> (192 \<le> n \<and> n \<le> 214) \<or> (216 \<le> n \<and> n \<le> 246)
        \<or> 248 \<le> n)"

definition lower_char :: "char \<Rightarrow> char" where
  "lower_char c =
     (let n = (of_char c :: nat) in
        if (65 \<le> n \<and> n \<le> 90) \<or> (192 \<le> n \<and> n \<le> 214) \<or> (216 \<le> n \<and> n \<le> 222)
        then char_of (n + 32) else c)"

definition slugify :: "string \<Rightarrow> string" where
  "slugify string =
     map lower_char (map (\<lambda>c. if is_word_char c then c else CHR ''-'') string)"

text \<open>
  \<open>Path.__truediv__\<close> is \<open>os.path.join\<close> (POSIX): an absolute right operand replaces
  the left one, otherwise the two are joined with one separator.
\<close>

definition path_join :: "string \<Rightarrow> string \<Rightarrow> string" where
  "path_join a b =
     (if b \<noteq> [] \<and> hd b = CHR ''/'' then b
      else if a = [] \<or> last a = CHR ''/'' then a @ b
      else a @ ''/'' @ b)"

section \<open>The distributions\<close>

text \<open>
  \<open>Distro\<close> is abstract; its two concrete classes are the constructors, and an object
  carries its name. The class attributes are functions of the object.
\<close>

datatype distro = DebianLike string | ArchLinuxLike string

fun name :: "distro \<Rightarrow> string" where
  "name (DebianLike n) = n"
| "name (ArchLinuxLike n) = n"

fun template_path :: "distro \<Rightarrow> string" where
  "template_path (DebianLike n) = ''debian-like''"
| "template_path (ArchLinuxLike n) = ''archlinux-like''"

fun host_archs :: "distro \<Rightarrow> string list" where
  "host_archs (DebianLike n) = [''amd64'', ''i386'', ''arm32v7'', ''arm64v8'', ''ppc64le'', ''s390x'']"
| "host_archs (ArchLinuxLike n) = [''amd64'']"

fun client_archs :: "distro \<Rightarrow> string list" where
  "client_archs (DebianLike n) = [''amd64'', ''i386'', ''arm32v7'', ''arm64v8'', ''ppc64le'', ''s390x'']"
| "client_archs (ArchLinuxLike n) = [''amd64'', ''arm32v5'', ''arm32v6'', ''arm32v7'', ''arm64v8'']"

fun compilers_by_host_arch :: "distro \<Rightarrow> (string \<times> string list) list" where
  "compilers_by_host_arch (DebianLike n) =
     [(''amd64'', [''amd64'', ''i386'', ''arm32v7'', ''arm64v8'', ''ppc64le'', ''s390x'']),
      (''i386'', [''amd64'', ''i386'', ''arm64v8'', ''ppc64le'']),
      (''arm32v7'', [''arm32v7'']),
      (''arm64v8'', [''amd64'', ''i386'', ''arm64v8'']),
      (''ppc64le'', [''amd64'', ''i386'', ''arm64v8'', ''ppc64le'']),
      (''s390x'', [''s390x''])]"
| "compilers_by_host_arch (ArchLinuxLike n) =
     [(''amd64'', [''amd64'', ''arm32v5'', ''arm32v6'', ''arm32v7'', ''arm64v8''])]"

definition packages_by_arch :: "(string \<times> string) list" where
  "packages_by_arch =
     [(''amd64'', ''gcc-x86-64-linux-gnu g++-x86-64-linux-gnu binutils-x86-64-linux-gnu''),
      (''i386'', ''gcc-i686-linux-gnu g++-i686-linux-gnu binutils-i686-linux-gnu''),
      (''arm32v7'', ''gcc-arm-linux-gnueabihf g++-arm-linux-gnueabihf binutils-arm-linux-gnueabihf''),
      (''arm64v8'', ''gcc-aarch64-linux-gnu g++-aarch64-linux-gnu binutils-aarch64-linux-gnu''),
      (''ppc64le'', ''gcc-powerpc64le-linux-gnu g++-powerpc64le-linux-gnu binutils-powerpc64le-linux-gnu''),
      (''s390x'', ''gcc-s390x-linux-gnu g++-s390x-linux-gnu binutils-s390x-linux-gnu'')]"

fun ports_by_arch :: "distro \<Rightarrow> (string \<times> int) list" where
  "ports_by_arch (DebianLike n) =
     [(''i386'', 3603), (''amd64'', 3604), (''arm32v7'', 3607), (''arm64v8'', 3608),
      (''s390x'', 3609), (''ppc64le'', 3610)]"
| "ports_by_arch (ArchLinuxLike n) =
     [(''amd64'', 3704), (''arm32v5'', 3705), (''arm32v6'', 3706), (''arm32v7'', 3707),
      (''arm64v8'', 3708)]"

fun toolchains_by_arch :: "distro \<Rightarrow> (string \<times> string) list" where
  "toolchains_by_arch (DebianLike n) =
     [(''amd64'', ''x86_64-linux-gnu''),
      (''i386'', ''i686-linux-gnu''),
      (''ppc64le'', ''powerpc64le-linux-gnu''),
      (''s390x'', ''s390x-linux-gnu''),
      (''arm32v7'', ''arm-linux-gnueabihf''),
      (''arm64v8'', ''aarch64-linux-gnu'')]"
| "toolchains_by_arch (ArchLinuxLike n) =
     [(''arm32v5'', ''/toolchains/x-tools/arm-unknown-linux-gnueabi''),
      (''arm32v6'', ''/toolchains/x-tools6h/arm-unknown-linux-gnueabihf''),
      (''arm32v7'', ''/toolchains/x-tools7h/arm-unknown-linux-gnueabihf''),
      (''arm64v8'', ''/toolchains/x-tools8/aarch64-unknown-linux-gnu'')]"

definition flags_by_arch :: "(string \<times> string) list" where
  "flags_by_arch =
     [(''amd64'', ''START_DISTCC_X86_64_LINUX_GNU''),
      (''i386'', ''START_DISTCC_I686_LINUX_GNU''),
      (''ppc64le'', ''START_DISTCC_PPC64LE_LINUX_GNU''),
      (''s390x'', ''START_DISTCC_S390X_LINUX_GNU''),
      (''arm32v7'', ''START_DISTCC_ARM_LINUX_GNUEABIHF''),
      (''arm64v8'', ''START_DISTCC_AARCH64_LINUX_GNU'')]"

definition images_by_arch :: "(string \<times> string) list" where
  "images_by_arch =
     [(''amd64'', ''archlinux:20200908''),
      (''arm32v5'', ''lopsided/archlinux@sha256:66b26a83a39e26e2a390b5b92105f80e6042d0db79ee22b1f57d169307b87a58''),
      (''arm32v6'', ''lopsided/archlinux@sha256:109729d4d863e14fed6faa1437f0eaee8133b26c310079c8294a4c7db6dbebb5''),
      (''arm32v7'', ''lopsided/archlinux@sha256:fbf2d806f207a2e9a5400bd20672b80ca318a2e59fc56c1c0f90b4e9adb60f4a''),
      (''arm64v8'', ''lopsided/archlinux@sha256:f9d68dd73a85b587539e04ef26b18d91b243bee8e1a343ad97f67183f275e548'')]"

subsection \<open>The registry\<close>

text \<open>
  \<open>Distro.registry\<close> is one dictionary shared by all classes. \<open>Distro_init\<close> is what
  \<open>__init__\<close> does to it (\<open>self.registry[name] = self\<close>); it cannot raise.
\<close>

type_synonym registry = "(string \<times> distro) list"

definition Distro_init :: "distro \<Rightarrow> registry \<Rightarrow> registry" where
  "Distro_init self reg = dict_set (name self) self reg"

definition Distro_get :: "registry \<Rightarrow> string \<Rightarrow> error + distro" where
  "Distro_get reg nm =
     (case map_of reg nm of
        None \<Rightarrow> Inl (ValueError (''Unsupported distro '' @ nm @ '', choose from ''
                                  @ str_join '', '' (map fst reg)))
      | Some d \<Rightarrow> Inr d)"

text \<open>The two registrations at the end of the module, in their order.\<close>

definition debian_buster :: distro where
  "debian_buster = DebianLike ''debian:buster''"

definition archlinux :: distro where
  "archlinux = ArchLinuxLike ''archlinux''"

definition the_registry :: registry where
  "the_registry = Distro_init archlinux (Distro_init debian_buster [])"

subsection \<open>Output paths\<close>

definition out_path :: "distro \<Rightarrow> string" where
  "out_path self = slugify (name self)"

definition docker_compose_file_path :: "distro \<Rightarrow> string \<Rightarrow> string \<Rightarrow> string" where
  "docker_compose_file_path self host_arch client_arch =
     (let distro_slug = slugify (name self) in
      path_join (out_path self)
        (''docker-compose.'' @ distro_slug @ ''.host-'' @ host_arch @ ''.client-'' @ client_arch
          @ ''.yml''))"

subsection \<open>The context builder\<close>

fun get_compiler_path_part_by_arch :: "distro \<Rightarrow> pyval \<Rightarrow> pyval \<Rightarrow> error + string" where
  "get_compiler_path_part_by_arch (DebianLike n) host_arch compiler_arch =
     (if host_arch = compiler_arch then Inr []
      else case subscript (toolchains_by_arch (DebianLike n)) compiler_arch of
             Inl e \<Rightarrow> Inl e
           | Inr t \<Rightarrow> Inr (path_join (path_join ''/usr/local/'' t) ''bin:''))"
| "get_compiler_path_part_by_arch (ArchLinuxLike n) host_arch client_arch =
     (if host_arch = client_arch then Inr []
      else case subscript (toolchains_by_arch (ArchLinuxLike n)) client_arch of
             Inl e \<Rightarrow> Inl e
           | Inr t \<Rightarrow> Inr (path_join t ''bin:''))"

text \<open>\<open>self.toolchains_by_arch.get(client_arch)\<close>: \<open>None\<close> when there is no entry.\<close>

definition toolchain_get :: "distro \<Rightarrow> pyval \<Rightarrow> pyval" where
  "toolchain_get self k =
     (case subscript (toolchains_by_arch self) k of Inl e \<Rightarrow> VNone | Inr t \<Rightarrow> VStr t)"

text \<open>The method of the base class, which both subclasses call first.\<close>

definition Distro_get_template_context :: "distro \<Rightarrow> context \<Rightarrow> error + context" where
  "Distro_get_template_context self context0 =
     (let context1 = context0(''distro'' \<mapsto> VStr (name self),
                              ''distro_slug'' \<mapsto> VStr (slugify (name self)));
          context2 = (if \<not> truthy (dict_get context1 ''tag'')
                      then context1(''tag'' \<mapsto> VStr ''devel'') else context1);
          host_arch = dict_get context2 ''host_arch'';
          client_arch = dict_get context2 ''client_arch''
      in if truthy client_arch then
           (case subscript (ports_by_arch self) client_arch of
              Inl e \<Rightarrow> Inl e
            | Inr host_port \<Rightarrow>
               (let context3 = context2(''host_port'' \<mapsto> VInt host_port,
                                        ''toolchain'' \<mapsto> toolchain_get self client_arch)
                in if truthy host_arch then
                     (case get_compiler_path_part_by_arch self host_arch client_arch of
                        Inl e \<Rightarrow> Inl e
                      | Inr part \<Rightarrow> Inr (context3(''compiler_path_part'' \<mapsto> VStr part)))
                   else Inr context3))
         else Inr context2)"

text \<open>\<open>DebianLike.get_apt_packages_by_host_arch\<close>: the loop appends one entry per compiler.\<close>

fun append_packages :: "string list \<Rightarrow> string \<Rightarrow> error + string" where
  "append_packages [] packages = Inr packages"
| "append_packages (compiler_arch # rest) packages =
     (case subscript packages_by_arch (VStr compiler_arch) of
        Inl e \<Rightarrow> Inl e
      | Inr p \<Rightarrow> append_packages rest (packages @ '' '' @ p))"

definition get_apt_packages_by_host_arch :: "distro \<Rightarrow> pyval \<Rightarrow> error + string" where
  "get_apt_packages_by_host_arch self host_arch =
     (case subscript (compilers_by_host_arch self) host_arch of
        Inl e \<Rightarrow> Inl e
      | Inr compilers \<Rightarrow> append_packages compilers ''build-essential g++ distcc'')"

text \<open>The overriding methods: the base context first, then the fields of the family.\<close>

fun get_template_context :: "distro \<Rightarrow> context \<Rightarrow> error + context" where
  "get_template_context (DebianLike n) context0 =
     (case Distro_get_template_context (DebianLike n) context0 of
        Inl e \<Rightarrow> Inl e
      | Inr context1 \<Rightarrow>
         (let client_arch = dict_get context1 ''client_arch'';
              host_arch = dict_get context1 ''host_arch''
          in case (if truthy client_arch then
                     (case subscript flags_by_arch client_arch of
                        Inl e \<Rightarrow> Inl e
                      | Inr flag \<Rightarrow> Inr (context1(''flag'' \<mapsto> VStr flag)))
                   else Inr context1) of
               Inl e \<Rightarrow> Inl e
             | Inr context2 \<Rightarrow>
                (if truthy host_arch then
                   (case get_apt_packages_by_host_arch (DebianLike n) host_arch of
                      Inl e \<Rightarrow> Inl e
                    | Inr packages \<Rightarrow> Inr (context2(''packages'' \<mapsto> VStr packages)))
                 else Inr context2)))"
| "get_template_context (ArchLinuxLike n) context0 =
     (case Distro_get_template_context (ArchLinuxLike n) context0 of
        Inl e \<Rightarrow> Inl e
      | Inr context1 \<Rightarrow>
         (let host_arch = dict_get context1 ''host_arch'';
              client_arch = dict_get context1 ''client_arch''
          in case (if truthy client_arch then
                     (case subscript images_by_arch client_arch of
                        Inl e \<Rightarrow> Inl e
                      | Inr client_image \<Rightarrow>
                          Inr (context1(''client_image'' \<mapsto> VStr client_image,
                                        ''toolchain'' \<mapsto> toolchain_get (ArchLinuxLike n) client_arch)))
                   else Inr context1) of
               Inl e \<Rightarrow> Inl e
             | Inr context2 \<Rightarrow>
                (if truthy host_arch then
                   (case subscript images_by_arch host_arch of
                      Inl e \<Rightarrow> Inl e
                    | Inr host_image \<Rightarrow> Inr (context2(''host_image'' \<mapsto> VStr host_image)))
                 else Inr context2)))"

subsection \<open>The list-host-archs subcommand\<close>

text \<open>
  \<open>argparse\<close> applies \<open>Distro.get\<close> to the argument; \<open>main\<close> prints the host
  architectures of the distribution, one per line.
\<close>

definition list_host_archs :: "registry \<Rightarrow> string \<Rightarrow> error + string list" where
  "list_host_archs reg nm =
     (case Distro_get reg nm of Inl e \<Rightarrow> Inl e | Inr d \<Rightarrow> Inr (host_archs d))"

definition main_list_host_archs :: "registry \<Rightarrow> string \<Rightarrow> error + string" where
  "main_list_host_archs reg nm =
     (case list_host_archs reg nm of Inl e \<Rightarrow> Inl e | Inr archs \<Rightarrow> Inr (str_join [CHR 0x0A] archs))"

section \<open>The file system\<close>

text \<open>
  The program reads templates and writes below its project directory, which it enters with
  \<open>with PROJECT_DIR\<close>; the process is taken to be started there, so that every relative
  path names the same file throughout. A file system is the regular files with their text
  and the directories, both named by their path relative to the project directory.
  Permissions, links and encodings are not part of the model. Only plain relative paths
  are followed: components separated by single slashes, none of them empty, \<open>.\<close> or
  \<open>..\<close>. The empty path is treated as the system calls treat it.
\<close>

record fs =
  files :: "string \<rightharpoonup> string"
  dirs :: "string set"

text \<open>\<open>p.split('/')\<close>.\<close>

fun split_sep :: "string \<Rightarrow> string list" where
  "split_sep [] = [[]]"
| "split_sep (c # cs) =
     (if c = CHR ''/'' then [] # split_sep cs
      else case split_sep cs of [] \<Rightarrow> [[c]] | x # xs \<Rightarrow> (c # x) # xs)"

definition plain_path :: "string \<Rightarrow> bool" where
  "plain_path p = list_all (\<lambda>c. c \<noteq> [] \<and> c \<noteq> ''.'' \<and> c \<noteq> ''..'') (split_sep p)"

text \<open>The directories above a path: \<open>a\<close> and \<open>a/b\<close> for \<open>a/b/c\<close>.\<close>

fun parents_from :: "string \<Rightarrow> string \<Rightarrow> string list" where
  "parents_from acc [] = []"
| "parents_from acc (c # cs) =
     (if c = CHR ''/'' then acc # parents_from (acc @ [c]) cs
      else parents_from (acc @ [c]) cs)"

definition ancestors :: "string \<Rightarrow> string list" where
  "ancestors p = parents_from [] p"

definition file_above :: "fs \<Rightarrow> string \<Rightarrow> bool" where
  "file_above fs p = list_ex (\<lambda>a. files fs a \<noteq> None) (ancestors p)"

text \<open>\<open>inside d p\<close>: the path is the directory \<open>d\<close> or lies below it.\<close>

definition inside :: "string \<Rightarrow> string \<Rightarrow> bool" where
  "inside d p = (p = d \<or> prefix (d @ ''/'') p)"

text \<open>
  \<open>os.path.dirname\<close> (POSIX): everything up to the last slash, without trailing
  slashes unless it consists of slashes only.
\<close>

definition os_path_dirname :: "string \<Rightarrow> string" where
  "os_path_dirname p =
     (let head = rev (dropWhile (\<lambda>c. c \<noteq> CHR ''/'') (rev p))
      in if head \<noteq> [] \<and> \<not> list_all (\<lambda>c. c = CHR ''/'') head
         then rev (dropWhile (\<lambda>c. c = CHR ''/'') (rev head))
         else head)"

definition os_path_exists :: "fs \<Rightarrow> string \<Rightarrow> error + bool" where
  "os_path_exists fs p =
     (if p = [] then Inr False
      else if \<not> plain_path p then Inl Unmodelled
      else Inr (p \<in> dirs fs \<or> files fs p \<noteq> None))"

text \<open>\<open>open(p, 'r')\<close> followed by \<open>read()\<close>.\<close>

definition open_read :: "fs \<Rightarrow> string \<Rightarrow> error + string" where
  "open_read fs p =
     (if p = [] then Inl FileNotFoundError
      else if \<not> plain_path p then Inl Unmodelled
      else if p \<in> dirs fs then Inl IsADirectoryError
      else case files fs p of
             Some text \<Rightarrow> Inr text
           | None \<Rightarrow> if file_above fs p then Inl NotADirectoryError else Inl FileNotFoundError)"

text \<open>\<open>open(p, 'w')\<close> followed by \<open>write(text)\<close>: the file is created or replaced.\<close>

definition open_write :: "string \<Rightarrow> string \<Rightarrow> fs \<Rightarrow> error + fs" where
  "open_write p text fs =
     (if p = [] then Inl FileNotFoundError
      else if \<not> plain_path p then Inl Unmodelled
      else if p \<in> dirs fs then Inl IsADirectoryError
      else if file_above fs p then Inl NotADirectoryError
      else if \<not> list_all (\<lambda>a. a \<in> dirs fs) (ancestors p) then Inl FileNotFoundError
      else Inr (fs\<lparr>files := (files fs)(p \<mapsto> text)\<rparr>))"

text \<open>\<open>os.makedirs(p)\<close> with \<open>exist_ok=False\<close>: the missing directories above, then \<open>p\<close>.\<close>

definition os_makedirs :: "string \<Rightarrow> fs \<Rightarrow> error + fs" where
  "os_makedirs p fs =
     (if p = [] then Inl FileNotFoundError
      else if \<not> plain_path p then Inl Unmodelled
      else if file_above fs p then Inl NotADirectoryError
      else if p \<in> dirs fs \<or> files fs p \<noteq> None then Inl FileExistsError
      else Inr (fs\<lparr>dirs := dirs fs \<union> set (ancestors p) \<union> {p}\<rparr>))"

text \<open>\<open>shutil.rmtree(p)\<close> with the default error handling, which raises.\<close>

definition shutil_rmtree :: "string \<Rightarrow> fs \<Rightarrow> error + fs" where
  "shutil_rmtree p fs =
     (if p = [] then Inl FileNotFoundError
      else if \<not> plain_path p then Inl Unmodelled
      else if file_above fs p \<or> files fs p \<noteq> None then Inl NotADirectoryError
      else if p \<notin> dirs fs then Inl FileNotFoundError
      else Inr (fs\<lparr>files := (\<lambda>q. if inside p q then None else files fs q),
                   dirs := {q \<in> dirs fs. \<not> inside p q}\<rparr>))"

text \<open>
  \<open>shutil.copytree(src, dst)\<close> with its defaults (\<open>dirs_exist_ok=False\<close>): the source
  directory is listed, then \<open>os.makedirs(dst)\<close> creates the destination, which must not
  exist, then the tree is copied below it. Copying a tree into itself is not followed.
\<close>

definition shutil_copytree :: "string \<Rightarrow> string \<Rightarrow> fs \<Rightarrow> error + fs" where
  "shutil_copytree src dst fs =
     (if src = [] then Inl FileNotFoundError
      else if \<not> plain_path src then Inl Unmodelled
      else if file_above fs src \<or> files fs src \<noteq> None then Inl NotADirectoryError
      else if src \<notin> dirs fs then Inl FileNotFoundError
      else case os_makedirs dst fs of
             Inl e \<Rightarrow> Inl e
           | Inr fs1 \<Rightarrow>
               if inside src dst then Inl Unmodelled
               else Inr (fs1\<lparr>files := (\<lambda>q. if prefix (dst @ ''/'') q
                                             then files fs (src @ drop (length dst) q)
                                             else files fs1 q),
                             dirs := dirs fs1 \<union> (\<lambda>q. dst @ drop (length src) q) `
                                                     {q \<in> dirs fs. prefix (src @ ''/'') q}\<rparr>))"

section \<open>Template rendering\<close>

text \<open>
  \<open>str.format(**context)\<close> reads the template from left to right as literal
  characters (with \<open>{{\<close> and \<open>}}\<close> for the braces) and replacement fields, and raises at
  the first thing that is wrong. The fields followed here are names closed by a brace; a
  conversion, a format specification, an attribute or an index is \<open>Unmodelled\<close>.
\<close>

datatype markup = Lit char | Field string | Bad error

fun markup_iter :: "string \<Rightarrow> markup list"
  and parse_field :: "string \<Rightarrow> string \<Rightarrow> markup list" where
  "markup_iter [] = []"
| "markup_iter [c] =
     (if c = CHR ''{'' then [Bad (ValueError ''Single '{' encountered in format string'')]
      else if c = CHR ''}'' then [Bad (ValueError ''Single '}' encountered in format string'')]
      else [Lit c])"
| "markup_iter (c # d # ds) =
     (if c = CHR ''{'' then
        (if d = CHR ''{'' then Lit c # markup_iter ds else parse_field [] (d # ds))
      else if c = CHR ''}'' then
        (if d = CHR ''}'' then Lit c # markup_iter ds
         else [Bad (ValueError ''Single '}' encountered in format string'')])
      else Lit c # markup_iter (d # ds))"
| "parse_field acc [] = [Bad (ValueError ''expected '}' before end of string'')]"
| "parse_field acc (c # cs) =
     (if c = CHR ''}'' then Field acc # markup_iter cs
      else if c = CHR ''{'' then [Bad (ValueError ''unexpected '{' in field name'')]
      else if c = CHR ''!'' \<or> c = CHR '':'' \<or> c = CHR ''.'' \<or> c = CHR ''['' then [Bad Unmodelled]
      else parse_field (acc @ [c]) cs)"

text \<open>
  A field whose name is empty or a decimal number is positional; \<open>format\<close> is called
  with keyword arguments only, so it is out of range (or too long for a 64-bit index).
  Any other name is looked up in the context.
\<close>

definition is_decimal :: "char \<Rightarrow> bool" where
  "is_decimal c = (48 \<le> (of_char c :: nat) \<and> (of_char c :: nat) \<le> 57)"

definition decimal_value :: "string \<Rightarrow> int" where
  "decimal_value k = foldl (\<lambda>a c. a * 10 + (of_char c - 48)) 0 k"

definition get_field :: "string \<Rightarrow> context \<Rightarrow> error + pyval" where
  "get_field k ctx =
     (if list_all is_decimal k then
        (if decimal_value k > 9223372036854775807
         then Inl (ValueError ''Too many decimal digits in format string'')
         else Inl IndexError)
      else case ctx k of None \<Rightarrow> Inl (KeyError (VStr k)) | Some v \<Rightarrow> Inr v)"

fun substitute :: "markup list \<Rightarrow> context \<Rightarrow> error + string" where
  "substitute [] ctx = Inr []"
| "substitute (Lit c # ms) ctx =
     (case substitute ms ctx of Inl e \<Rightarrow> Inl e | Inr r \<Rightarrow> Inr (c # r))"
| "substitute (Field k # ms) ctx =
     (case get_field k ctx of
        Inl e \<Rightarrow> Inl e
      | Inr v \<Rightarrow> (case substitute ms ctx of Inl e \<Rightarrow> Inl e | Inr r \<Rightarrow> Inr (str v @ r)))"
| "substitute (Bad e # ms) ctx = Inl e"

definition str_format :: "string \<Rightarrow> context \<Rightarrow> error + string" where
  "str_format text ctx = substitute (markup_iter text) ctx"

text \<open>The names of the replacement fields of a template, in order.\<close>

fun placeholders :: "markup list \<Rightarrow> string list" where
  "placeholders [] = []"
| "placeholders (Field k # ms) = k # placeholders ms"
| "placeholders (m # ms) = placeholders ms"

text \<open>
  The module-level \<open>render(template, out, context)\<close>. It returns the path written; the
  line it prints is not modelled.
\<close>

definition render :: "string \<Rightarrow> string \<Rightarrow> context \<Rightarrow> fs \<Rightarrow> error + fs \<times> string" where
  "render template out ctx fs =
     (case open_read fs template of
        Inl e \<Rightarrow> Inl e
      | Inr text \<Rightarrow>
         (case str_format text ctx of
            Inl e \<Rightarrow> Inl e
          | Inr rendered \<Rightarrow>
             (let dir_name = os_path_dirname out in
              case os_path_exists fs dir_name of
                Inl e \<Rightarrow> Inl e
              | Inr ex \<Rightarrow>
                 (case (if \<not> ex then os_makedirs dir_name fs else Inr fs) of
                    Inl e \<Rightarrow> Inl e
                  | Inr fs1 \<Rightarrow>
                     (case open_write out rendered fs1 of
                        Inl e \<Rightarrow> Inl e
                      | Inr fs2 \<Rightarrow> Inr (fs2, out))))))"

section \<open>The orchestrator\<close>

text \<open>
  A call \<open>f(k=v, **kwargs)\<close> raises \<open>TypeError\<close> when \<open>kwargs\<close> holds \<open>k\<close> too;
  otherwise the callee receives both.
\<close>

fun call_kwargs :: "(string \<times> pyval) list \<Rightarrow> context \<Rightarrow> error + context" where
  "call_kwargs [] kwargs = Inr kwargs"
| "call_kwargs ((k, v) # rest) kwargs =
     (if kwargs k \<noteq> None then Inl TypeError else call_kwargs rest (kwargs(k \<mapsto> v)))"

text \<open>A \<open>for\<close> loop whose body changes the file system and may raise.\<close>

fun for_each :: "'a list \<Rightarrow> ('a \<Rightarrow> fs \<Rightarrow> error + fs) \<Rightarrow> fs \<Rightarrow> error + fs" where
  "for_each [] body fs = Inr fs"
| "for_each (x # xs) body fs =
     (case body x fs of Inl e \<Rightarrow> Inl e | Inr fs' \<Rightarrow> for_each xs body fs')"

text \<open>One statement after another: the second runs on the state the first one left.\<close>

definition and_then :: "error + 'a \<Rightarrow> ('a \<Rightarrow> error + 'b) \<Rightarrow> error + 'b" where
  "and_then m f = (case m of Inl e \<Rightarrow> Inl e | Inr x \<Rightarrow> f x)"

text \<open>The body shared by the rendering loops: build the context, render one template.\<close>

definition render_one ::
  "distro \<Rightarrow> (string \<times> pyval) list \<Rightarrow> context \<Rightarrow> string \<Rightarrow> string \<Rightarrow> fs \<Rightarrow> error + fs" where
  "render_one self kw kwargs template out fs =
     and_then (call_kwargs kw kwargs) (\<lambda>args.
     and_then (get_template_context self args) (\<lambda>ctx.
     and_then (render template out ctx fs) (\<lambda>r. Inr (fst r))))"

definition render_dockerfile_host :: "distro \<Rightarrow> context \<Rightarrow> fs \<Rightarrow> error + fs" where
  "render_dockerfile_host self kwargs =
     for_each (host_archs self) (\<lambda>host_arch.
       render_one self [(''host_arch'', VStr host_arch)] kwargs
         (path_join (template_path self) ''host/Dockerfile.template'')
         (path_join (path_join (out_path self) ''host'') (''Dockerfile.'' @ host_arch)))"

definition render_dockerfile_client :: "distro \<Rightarrow> context \<Rightarrow> fs \<Rightarrow> error + fs" where
  "render_dockerfile_client self kwargs =
     for_each (client_archs self) (\<lambda>client_arch.
       render_one self [(''client_arch'', VStr client_arch)] kwargs
         (path_join (template_path self) ''client/Dockerfile.template'')
         (path_join (path_join (out_path self) ''client'') (''Dockerfile.'' @ client_arch)))"

definition render_docker_compose :: "distro \<Rightarrow> context \<Rightarrow> fs \<Rightarrow> error + fs" where
  "render_docker_compose self kwargs =
     for_each (host_archs self) (\<lambda>host_arch.
       for_each (client_archs self) (\<lambda>client_arch.
         render_one self [(''host_arch'', VStr host_arch), (''client_arch'', VStr client_arch)] kwargs
           (path_join (template_path self) ''docker-compose.template.yml'')
           (docker_compose_file_path self host_arch client_arch)))"

definition Distro_render :: "distro \<Rightarrow> context \<Rightarrow> fs \<Rightarrow> error + fs" where
  "Distro_render self kwargs fs =
     and_then (render_dockerfile_host self kwargs fs) (\<lambda>fs1.
     and_then (render_dockerfile_client self kwargs fs1) (\<lambda>fs2.
     render_docker_compose self kwargs fs2))"

text \<open>
  The inner loops run over \<open>self.compilers_by_host_arch[host_arch]\<close>, the client
  architectures that the host can compile for.
\<close>

definition for_each_compiler ::
  "distro \<Rightarrow> (string \<Rightarrow> string \<Rightarrow> fs \<Rightarrow> error + fs) \<Rightarrow> fs \<Rightarrow> error + fs" where
  "for_each_compiler self body =
     for_each (host_archs self) (\<lambda>host_arch fs.
       and_then (subscript (compilers_by_host_arch self) (VStr host_arch)) (\<lambda>compilers.
         for_each compilers (body host_arch) fs))"

definition render_initd_distccd :: "distro \<Rightarrow> context \<Rightarrow> fs \<Rightarrow> error + fs" where
  "render_initd_distccd self kwargs =
     for_each_compiler self (\<lambda>host_arch client_arch fs.
       and_then (call_kwargs [(''host_arch'', VStr host_arch), (''client_arch'', VStr client_arch)] kwargs)
         (\<lambda>args.
       and_then (get_template_context self args) (\<lambda>ctx.
       and_then (render
           (path_join (template_path self) ''host/build-context/etc/default/distccd.template'')
           (path_join (path_join (out_path self) ''host/build-context/etc/default'')
              (''distccd.host-'' @ host_arch @ ''.client-'' @ client_arch))
           ctx fs) (\<lambda>r1.
       and_then (render
           (path_join (template_path self) ''host/build-context/etc/init.d/distccd.template'')
           (path_join (path_join (out_path self) ''host/build-context/etc/init.d'')
              (''distccd.host-'' @ host_arch @ ''.client-'' @ client_arch))
           ctx (fst r1)) (\<lambda>r2.
       and_then (render
           (path_join (template_path self) ''host/build-context/etc/logrotate.d/distccd.template'')
           (path_join (path_join (out_path self) ''host/build-context/etc/logrotate.d'')
              (''distccd.host-'' @ host_arch @ ''.client-'' @ client_arch))
           ctx (fst r2)) (\<lambda>r3. Inr (fst r3)))))))"

definition render_systemd_units :: "distro \<Rightarrow> context \<Rightarrow> fs \<Rightarrow> error + fs" where
  "render_systemd_units self kwargs =
     for_each_compiler self (\<lambda>host_arch client_arch fs.
       and_then (call_kwargs [(''host_arch'', VStr host_arch), (''client_arch'', VStr client_arch)] kwargs)
         (\<lambda>args.
       and_then (get_template_context self args) (\<lambda>ctx.
       and_then (render
           (path_join (template_path self) ''host/build-context/etc/conf.d/distccd.template'')
           (path_join (path_join (out_path self) ''host/build-context/etc/conf.d'')
              (''distccd.host-'' @ host_arch @ ''.client-'' @ client_arch))
           ctx fs) (\<lambda>r1.
       and_then (render
           (path_join (template_path self)
              ''host/build-context/usr/lib/systemd/system/distccd.template.service'')
           (path_join (path_join (out_path self) ''host/build-context/usr/lib/systemd/system'')
              (''distccd.host-'' @ host_arch @ ''.client-'' @ client_arch @ ''.service''))
           ctx (fst r1)) (\<lambda>r2. Inr (fst r2))))))"

text \<open>
  \<open>ArchLinuxLike.render_systemd_distccd\<close>: the two loops, then the four
  \<open>shutil.copytree\<close> calls in the order of the source.
\<close>

definition render_systemd_distccd :: "distro \<Rightarrow> context \<Rightarrow> fs \<Rightarrow> error + fs" where
  "render_systemd_distccd self kwargs fs =
     (let host_build_context_dir = path_join (out_path self) ''host/build-context'';
          client_build_context_dir = path_join (out_path self) ''client/build-context''
      in and_then (render_systemd_units self kwargs fs) (\<lambda>fs1.
         and_then (shutil_copytree (path_join (template_path self) ''client/scripts'')
                     (path_join client_build_context_dir ''scripts'') fs1) (\<lambda>fs2.
         and_then (shutil_copytree ''shared-build-context/client'' client_build_context_dir fs2) (\<lambda>fs3.
         and_then (shutil_copytree (path_join (template_path self) ''host/scripts'')
                     (path_join host_build_context_dir ''scripts'') fs3) (\<lambda>fs4.
         shutil_copytree ''shared-build-context/host'' host_build_context_dir fs4)))))"

text \<open>The overriding \<open>render\<close> methods: the base rendering, then the family's files.\<close>

fun distro_render :: "distro \<Rightarrow> context \<Rightarrow> fs \<Rightarrow> error + fs" where
  "distro_render (DebianLike n) kwargs fs =
     and_then (Distro_render (DebianLike n) kwargs fs) (render_initd_distccd (DebianLike n) kwargs)"
| "distro_render (ArchLinuxLike n) kwargs fs =
     and_then (Distro_render (ArchLinuxLike n) kwargs fs)
       (render_systemd_distccd (ArchLinuxLike n) kwargs)"

text \<open>The \<open>render\<close> subcommand: \<open>args.distro.render(tag=args.tag)\<close>.\<close>

definition main_render :: "registry \<Rightarrow> string \<Rightarrow> string \<Rightarrow> fs \<Rightarrow> error + fs" where
  "main_render reg nm tag fs =
     and_then (Distro_get reg nm) (\<lambda>d. distro_render d (Map.empty(''tag'' \<mapsto> VStr tag)) fs)"

text \<open>\<open>Distro.clean\<close>: \<open>shutil.rmtree(self.out_path)\<close>.\<close>

definition Distro_clean :: "distro \<Rightarrow> fs \<Rightarrow> error + fs" where
  "Distro_clean self fs = shutil_rmtree (out_path self) fs"

text \<open>
  What \<open>markup_iter\<close> produces stops at the first error: a \<open>Bad\<close> item can only be
  the last one.
\<close>

fun bad_last :: "markup list \<Rightarrow> bool" where
  "bad_last [] = True"
| "bad_last (Bad e # ms) = (ms = [])"
| "bad_last (m # ms) = bad_last ms"

section \<open>Sample project trees\<close>

text \<open>A tree with one template, two fields in it.\<close>

definition fsw :: fs where
  "fsw = \<lparr> files = [''t/a.template'' \<mapsto> ''x={a} y={b}''], dirs = {''t''} \<rparr>"

text \<open>A tree in which \<open>archlinux\<close> has been rendered and \<open>debian:buster\<close> has not.\<close>

definition fsc :: fs where
  "fsc = \<lparr> files = [''archlinux/host/Dockerfile.amd64'' \<mapsto> ''x'', ''archlinux-like/x'' \<mapsto> ''y''],
           dirs = {''archlinux'', ''archlinux/host'', ''archlinux-like''} \<rparr>"

text \<open>
  A project tree for \<open>debian:buster\<close>: the six templates of \<open>debian-like\<close>, of which
  the compose template has two fields, and no output yet.
\<close>

definition debian_template_files :: "string list" where
  "debian_template_files =
     [''debian-like/host/Dockerfile.template'',
      ''debian-like/client/Dockerfile.template'',
      ''debian-like/docker-compose.template.yml'',
      ''debian-like/host/build-context/etc/default/distccd.template'',
      ''debian-like/host/build-context/etc/init.d/distccd.template'',
      ''debian-like/host/build-context/etc/logrotate.d/distccd.template'']"

definition debian_template_dirs :: "string list" where
  "debian_template_dirs =
     [''debian-like'', ''debian-like/host'', ''debian-like/client'',
      ''debian-like/host/build-context'', ''debian-like/host/build-context/etc'',
      ''debian-like/host/build-context/etc/default'',
      ''debian-like/host/build-context/etc/init.d'',
      ''debian-like/host/build-context/etc/logrotate.d'']"

definition fsd :: fs where
  "fsd = \<lparr> files =
             [''debian-like/host/Dockerfile.template'' \<mapsto> ''FROM debian:buster'',
              ''debian-like/client/Dockerfile.template'' \<mapsto> ''FROM debian:buster'',
              ''debian-like/docker-compose.template.yml'' \<mapsto> ''port {host_port} tag {tag}'',
              ''debian-like/host/build-context/etc/default/distccd.template'' \<mapsto> ''STARTDISTCC=true'',
              ''debian-like/host/build-context/etc/init.d/distccd.template'' \<mapsto> ''#!/bin/sh'',
              ''debian-like/host/build-context/etc/logrotate.d/distccd.template'' \<mapsto> ''/var/log/distccd.log''],
           dirs = set debian_template_dirs \<rparr>"

text \<open>
  The directories that rendering \<open>debian:buster\<close> creates, and what holds of the tree
  \<open>fsd\<close> at every moment of a rendering: the templates are as in \<open>fsd\<close>, the directories
  are template or output directories, no file has the path of one of them, and an output
  directory that exists has all the directories above it.
\<close>

definition debian_out_dirs :: "string list" where
  "debian_out_dirs =
     [''debian-buster'', ''debian-buster/host'', ''debian-buster/client'',
      ''debian-buster/host/build-context'', ''debian-buster/host/build-context/etc'',
      ''debian-buster/host/build-context/etc/default'',
      ''debian-buster/host/build-context/etc/init.d'',
      ''debian-buster/host/build-context/etc/logrotate.d'']"

definition fsd_rendering :: "fs \<Rightarrow> bool" where
  "fsd_rendering s =
     (list_all (\<lambda>t. files s t = files fsd t) debian_template_files
      \<and> dirs s \<subseteq> set (debian_template_dirs @ debian_out_dirs)
      \<and> list_all (\<lambda>q. files s q = None) (debian_template_dirs @ debian_out_dirs)
      \<and> list_all (\<lambda>p. p \<in> dirs s \<longrightarrow> set (ancestors p) \<subseteq> dirs s) debian_out_dirs)"

section \<open>Helper lemmas\<close>

lemma sublist_append_pre: "sublist x ys \<Longrightarrow> sublist x (ps @ ys)"
  unfolding sublist_def by (metis append.assoc)

lemma sublist_str_join: "x \<in> set xs \<Longrightarrow> sublist x (str_join sep xs)"
proof (induction sep xs rule: str_join.induct)
  case (1 sep)
  then show ?case by simp
next
  case (2 sep y)
  then show ?case by simp
next
  case (3 sep a b ys)
  show ?case
  proof (cases "x = a")
    case True
    then show ?thesis by (simp add: sublist_append_rightI)
  next
    case False
    with 3 have "sublist x (str_join sep (b # ys))" by simp
    then have "sublist x ((a @ sep) @ str_join sep (b # ys))" by (rule sublist_append_pre)
    then show ?thesis by simp
  qed
qed

lemma map_of_dict_set: "map_of (dict_set k v d) = (map_of d)(k \<mapsto> v)"
  by (induction d) (auto simp: fun_eq_iff)

lemma keys_dict_set:
  "map fst (dict_set k v d) = (if k \<in> fst ` set d then map fst d else map fst d @ [k])"
  by (induction d) (force simp: image_iff)+

lemma key_in_dict_set: "k \<in> fst ` set (dict_set k v d)"
  by (induction d) (force simp: image_iff)+

lemma dict_get_upd [simp]: "dict_get (c(k \<mapsto> v)) k' = (if k' = k then v else dict_get c k')"
  by (simp add: dict_get_def)

lemma dict_get_del [simp]: "dict_get (c(k := None)) k' = (if k' = k then VNone else dict_get c k')"
  by (simp add: dict_get_def)

lemma dict_get_empty [simp]: "dict_get Map.empty k = VNone"
  by (simp add: dict_get_def)

lemma slugify_debian_buster: "slugify ''debian:buster'' = ''debian-buster''"
  by (simp add: slugify_def is_word_char_def lower_char_def)

lemma slugify_archlinux: "slugify ''archlinux'' = ''archlinux''"
  by (simp add: slugify_def is_word_char_def lower_char_def)

subsection \<open>The base context\<close>

lemma base_tag_falsy:
  assumes "\<not> truthy v"
  shows "Distro_get_template_context self (context(''tag'' \<mapsto> v))
           = Distro_get_template_context self (context(''tag'' := None))"
proof -
  have eq: "context(''tag'' \<mapsto> v, ''distro'' \<mapsto> a, ''distro_slug'' \<mapsto> b, ''tag'' \<mapsto> d)
          = context(''tag'' := None, ''distro'' \<mapsto> a, ''distro_slug'' \<mapsto> b, ''tag'' \<mapsto> d)" for a b d
    by (rule ext) simp
  show ?thesis using assms
    by (simp add: Distro_get_template_context_def Let_def eq cong: sum.case_cong if_cong)
qed

lemma base_keeps:
  assumes "Distro_get_template_context self context = Inr context'"
  shows "context' ''tag'' = Some (if truthy (dict_get context ''tag'')
                                  then dict_get context ''tag'' else VStr ''devel'')"
    and "dict_get context' ''host_arch'' = dict_get context ''host_arch''"
    and "dict_get context' ''client_arch'' = dict_get context ''client_arch''"
  using assms
  by (auto simp: Distro_get_template_context_def Let_def dict_get_def
           split: if_splits sum.splits option.splits)

lemma base_port:
  assumes "Distro_get_template_context self context = Inr context'"
    and "context ''client_arch'' = Some (VStr c)" and "c \<noteq> []"
  shows "\<exists>p. map_of (ports_by_arch self) c = Some p \<and> context' ''host_port'' = Some (VInt p)"
  using assms
  by (auto simp: Distro_get_template_context_def Let_def dict_get_def subscript_def
           split: if_splits sum.splits option.splits)

lemma base_both:
  assumes "context ''host_arch'' = Some (VStr h)" and "context ''client_arch'' = Some (VStr c)"
    and "h \<noteq> []" and "c \<noteq> []"
  shows "Distro_get_template_context self context =
     (case subscript (ports_by_arch self) (VStr c) of
        Inl e \<Rightarrow> Inl e
      | Inr host_port \<Rightarrow>
         (case get_compiler_path_part_by_arch self (VStr h) (VStr c) of
            Inl e \<Rightarrow> Inl e
          | Inr part \<Rightarrow>
             Inr ((if truthy (dict_get context ''tag'')
                   then context(''distro'' \<mapsto> VStr (name self),
                                ''distro_slug'' \<mapsto> VStr (slugify (name self)))
                   else context(''distro'' \<mapsto> VStr (name self),
                                ''distro_slug'' \<mapsto> VStr (slugify (name self)),
                                ''tag'' \<mapsto> VStr ''devel''))
                  (''host_port'' \<mapsto> VInt host_port,
                   ''toolchain'' \<mapsto> toolchain_get self (VStr c),
                   ''compiler_path_part'' \<mapsto> VStr part))))"
  using assms
  by (simp add: Distro_get_template_context_def Let_def dict_get_def split: sum.splits)

lemma base_missing_port:
  assumes "context ''client_arch'' = Some v" and "truthy v"
    and "\<forall>s. v = VStr s \<longrightarrow> map_of (ports_by_arch self) s = None"
  shows "Distro_get_template_context self context = Inl (KeyError v)"
proof -
  have "subscript (ports_by_arch self) v = Inl (KeyError v)"
    using assms(3) by (cases v) (simp_all add: subscript_def)
  then show ?thesis using assms(1,2)
    by (simp add: Distro_get_template_context_def Let_def dict_get_def)
qed

lemma base_no_client:
  assumes "\<not> truthy (dict_get context ''client_arch'')"
  shows "\<exists>c1. Distro_get_template_context self context = Inr c1"
  using assms by (simp add: Distro_get_template_context_def Let_def)

subsection \<open>The context of a family\<close>

lemma family_context_from_base:
  assumes "get_template_context self context = Inr context'"
  shows "\<exists>c1. Distro_get_template_context self context = Inr c1
           \<and> context' ''compiler_path_part'' = c1 ''compiler_path_part''
           \<and> context' ''tag'' = c1 ''tag''
           \<and> context' ''host_port'' = c1 ''host_port''"
  using assms by (cases self) (auto simp: Let_def split: sum.splits if_splits)

lemma family_tag_falsy:
  "\<not> truthy v \<Longrightarrow> get_template_context self (context(''tag'' \<mapsto> v))
      = get_template_context self (context(''tag'' := None))"
  by (cases self) (simp_all add: base_tag_falsy)

lemma family_tag_result:
  assumes "get_template_context self context = Inr context'"
  shows "context' ''tag'' = Some (if truthy (dict_get context ''tag'')
                                  then dict_get context ''tag'' else VStr ''devel'')"
proof -
  from family_context_from_base[OF assms] obtain c1
    where b: "Distro_get_template_context self context = Inr c1"
      and r: "context' ''tag'' = c1 ''tag''" by blast
  from base_keeps(1)[OF b] r show ?thesis by simp
qed

lemma family_no_arch:
  assumes "\<not> truthy (dict_get context ''client_arch'')"
    and "\<not> truthy (dict_get context ''host_arch'')"
  shows "\<exists>c'. get_template_context self context = Inr c'"
proof -
  from base_no_client[OF assms(1)] obtain c1
    where b: "Distro_get_template_context self context = Inr c1" by blast
  from base_keeps(2,3)[OF b] assms
  have "\<not> truthy (dict_get c1 ''client_arch'')" "\<not> truthy (dict_get c1 ''host_arch'')" by simp_all
  with b show ?thesis by (cases self) (simp_all add: Let_def)
qed

lemma family_missing_port:
  assumes "context ''client_arch'' = Some v" and "truthy v"
    and "\<forall>s. v = VStr s \<longrightarrow> map_of (ports_by_arch self) s = None"
  shows "get_template_context self context = Inl (KeyError v)"
  using assms by (cases self) (simp_all add: base_missing_port)

lemma compiler_path_part_shape:
  assumes "get_compiler_path_part_by_arch self (VStr h) (VStr c) = Inr part"
  shows "(h = c \<longrightarrow> part = []) \<and>
         (h \<noteq> c \<longrightarrow> (\<exists>t. map_of (toolchains_by_arch self) c = Some t \<and> part \<noteq> []
                          \<and> suffix (t @ ''/bin:'') part))"
proof (cases self)
  case (DebianLike n)
  with assms show ?thesis
    by (auto simp: subscript_def path_join_def suffix_def split: if_splits)
next
  case (ArchLinuxLike n)
  with assms show ?thesis
    by (auto simp: subscript_def path_join_def suffix_def split: if_splits)
qed

lemma ports_ok:
  "c \<in> set (client_archs self) \<Longrightarrow> \<exists>p. subscript (ports_by_arch self) (VStr c) = Inr p"
  by (cases self) (auto simp: subscript_def)

lemma compiler_path_part_ok:
  "h \<in> set (host_archs self) \<Longrightarrow> c \<in> set (client_archs self) \<Longrightarrow>
     \<exists>p. get_compiler_path_part_by_arch self (VStr h) (VStr c) = Inr p"
  by (cases self) (auto simp: subscript_def)

lemma flags_ok:
  "c \<in> set (client_archs (DebianLike n)) \<Longrightarrow> \<exists>f. subscript flags_by_arch (VStr c) = Inr f"
  by (auto simp: subscript_def flags_by_arch_def)

lemma packages_ok:
  "h \<in> set (host_archs (DebianLike n)) \<Longrightarrow>
     \<exists>p. get_apt_packages_by_host_arch (DebianLike n) (VStr h) = Inr p"
  by (auto simp: get_apt_packages_by_host_arch_def subscript_def packages_by_arch_def)

lemma images_ok:
  "c \<in> set (client_archs (ArchLinuxLike n)) \<Longrightarrow> \<exists>f. subscript images_by_arch (VStr c) = Inr f"
  by (auto simp: subscript_def images_by_arch_def)

lemma archs_nonempty:
  "h \<in> set (host_archs self) \<Longrightarrow> h \<noteq> []"
  "c \<in> set (client_archs self) \<Longrightarrow> c \<noteq> []"
  by (cases self; auto)+

lemma base_ok:
  assumes "context ''host_arch'' = Some (VStr h)" and "context ''client_arch'' = Some (VStr c)"
    and "h \<in> set (host_archs self)" and "c \<in> set (client_archs self)"
  shows "\<exists>c1. Distro_get_template_context self context = Inr c1"
proof -
  have ne: "h \<noteq> []" "c \<noteq> []" using assms(3,4) archs_nonempty by blast+
  from ports_ok[OF assms(4)] compiler_path_part_ok[OF assms(3,4)] show ?thesis
    unfolding base_both[OF assms(1,2) ne] by auto
qed

lemma family_ok:
  assumes "context ''host_arch'' = Some (VStr h)" and "context ''client_arch'' = Some (VStr c)"
    and "h \<in> set (host_archs self)" and "c \<in> set (client_archs self)"
  shows "\<exists>c'. get_template_context self context = Inr c'"
proof -
  have ne: "h \<noteq> []" "c \<noteq> []" using assms(3,4) archs_nonempty by blast+
  from base_ok[OF assms] obtain c1
    where b: "Distro_get_template_context self context = Inr c1" by blast
  have hc: "dict_get c1 ''host_arch'' = VStr h" "dict_get c1 ''client_arch'' = VStr c"
    using base_keeps(2,3)[OF b] assms(1,2) by (simp_all add: dict_get_def)
  show ?thesis
  proof (cases self)
    case (DebianLike n)
    with flags_ok[of c n] packages_ok[of h n] assms(3,4) b hc ne show ?thesis
      by (auto simp: Let_def)
  next
    case (ArchLinuxLike n)
    with images_ok[of c n] images_ok[of h n] assms(3,4) b hc ne show ?thesis
      by (auto simp: Let_def)
  qed
qed

section \<open>The registry\<close>

text \<open>
  C3. Looking up a name that is not a key of the registry raises \<open>ValueError\<close>, and every
  key of the registry occurs in the message; looking up a key returns the distribution
  registered under it.
\<close>

theorem Distro_get_unknown_lists_names:
  "(nm \<notin> fst ` set reg \<longrightarrow>
      (\<exists>msg. Distro_get reg nm = Inl (ValueError msg) \<and> (\<forall>k \<in> fst ` set reg. sublist k msg)))
   \<and> (\<forall>d. map_of reg nm = Some d \<longrightarrow> Distro_get reg nm = Inr d)"
proof (intro conjI impI allI)
  assume "nm \<notin> fst ` set reg"
  then have "map_of reg nm = None" by (simp add: map_of_eq_None_iff)
  then have g: "Distro_get reg nm = Inl (ValueError
      ((''Unsupported distro '' @ nm @ '', choose from '') @ str_join '', '' (map fst reg)))"
    by (simp add: Distro_get_def)
  have "\<forall>k \<in> fst ` set reg. sublist k
      ((''Unsupported distro '' @ nm @ '', choose from '') @ str_join '', '' (map fst reg))"
  proof
    fix k assume "k \<in> fst ` set reg"
    then have "k \<in> set (map fst reg)" by simp
    then have "sublist k (str_join '', '' (map fst reg))" by (rule sublist_str_join)
    then show "sublist k
        ((''Unsupported distro '' @ nm @ '', choose from '') @ str_join '', '' (map fst reg))"
      by (rule sublist_append_pre)
  qed
  with g show "\<exists>msg. Distro_get reg nm = Inl (ValueError msg)
                 \<and> (\<forall>k \<in> fst ` set reg. sublist k msg)"
    by blast
next
  fix d assume "map_of reg nm = Some d"
  then show "Distro_get reg nm = Inr d" by (simp add: Distro_get_def)
qed

theorem Distro_get_unknown_lists_names_witness:
  "''gentoo'' \<notin> fst ` set the_registry
   \<and> (\<exists>msg. Distro_get the_registry ''gentoo'' = Inl (ValueError msg)
         \<and> sublist ''debian:buster'' msg \<and> sublist ''archlinux'' msg)
   \<and> map_of the_registry ''archlinux'' = Some archlinux
   \<and> Distro_get the_registry ''archlinux'' = Inr archlinux"
  using Distro_get_unknown_lists_names[of "''gentoo''" the_registry]
        Distro_get_unknown_lists_names[of "''archlinux''" the_registry]
  by (simp add: the_registry_def Distro_init_def debian_buster_def archlinux_def)

text \<open>
  C7. Registering under a name that is already a key cannot fail and replaces the entry:
  the key keeps its single place and a lookup returns the later distribution.
\<close>

theorem register_last_write_wins:
  "name d1 = name d2 \<Longrightarrow>
     Distro_get (Distro_init d2 (Distro_init d1 reg)) (name d1) = Inr d2
     \<and> map fst (Distro_init d2 (Distro_init d1 reg)) = map fst (Distro_init d1 reg)"
  by (simp add: Distro_get_def Distro_init_def map_of_dict_set keys_dict_set key_in_dict_set)

theorem register_last_write_wins_witness:
  "name (DebianLike ''archlinux'') = name archlinux
   \<and> Distro_get (Distro_init archlinux (Distro_init (DebianLike ''archlinux'') []))
        ''archlinux'' = Inr archlinux
   \<and> map fst (Distro_init archlinux (Distro_init (DebianLike ''archlinux'') [])) = [''archlinux'']"
  using register_last_write_wins[of "DebianLike ''archlinux''" archlinux "[]"]
  by (simp add: archlinux_def Distro_init_def)

text \<open>
  C9. The list-host-archs subcommand on \<open>debian:buster\<close> yields the six host architectures
  in the order of the source, printed one per line.
\<close>

theorem list_host_archs_debian_buster:
  "list_host_archs the_registry ''debian:buster''
     = Inr [''amd64'', ''i386'', ''arm32v7'', ''arm64v8'', ''ppc64le'', ''s390x'']
   \<and> main_list_host_archs the_registry ''debian:buster''
     = Inr (''amd64'' @ [CHR 0x0A] @ ''i386'' @ [CHR 0x0A] @ ''arm32v7'' @ [CHR 0x0A]
            @ ''arm64v8'' @ [CHR 0x0A] @ ''ppc64le'' @ [CHR 0x0A] @ ''s390x'')"
  by (simp add: main_list_host_archs_def list_host_archs_def Distro_get_def the_registry_def
        Distro_init_def debian_buster_def archlinux_def)

section \<open>The context builder\<close>

text \<open>
  C10. A tag that is supplied with a false value (the empty string, zero, \<open>None\<close>) gives
  the same result as no tag at all, and whenever a context is returned its tag is the
  supplied one if that is true and \<open>devel\<close> otherwise.
\<close>

theorem tag_defaults_to_devel:
  "(\<not> truthy v \<longrightarrow> get_template_context self (context(''tag'' \<mapsto> v))
                      = get_template_context self (context(''tag'' := None)))
   \<and> (\<forall>context'. get_template_context self context = Inr context' \<longrightarrow>
         context' ''tag'' = Some (if truthy (dict_get context ''tag'')
                                  then dict_get context ''tag'' else VStr ''devel''))"
  using family_tag_falsy family_tag_result by blast

theorem tag_defaults_to_devel_witness:
  "\<not> truthy (VStr [])
   \<and> get_template_context debian_buster (Map.empty(''tag'' \<mapsto> VStr []))
       = get_template_context debian_buster Map.empty
   \<and> (\<exists>c'. get_template_context debian_buster (Map.empty(''tag'' \<mapsto> VStr [])) = Inr c'
          \<and> c' ''tag'' = Some (VStr ''devel''))
   \<and> (\<exists>c'. get_template_context debian_buster (Map.empty(''tag'' \<mapsto> VStr ''v1'')) = Inr c'
          \<and> c' ''tag'' = Some (VStr ''v1''))"
proof -
  obtain c1 where c1: "get_template_context debian_buster (Map.empty(''tag'' \<mapsto> VStr [])) = Inr c1"
    using family_no_arch[of "Map.empty(''tag'' \<mapsto> VStr [])" debian_buster] by auto
  obtain c2 where c2: "get_template_context debian_buster (Map.empty(''tag'' \<mapsto> VStr ''v1'')) = Inr c2"
    using family_no_arch[of "Map.empty(''tag'' \<mapsto> VStr ''v1'')" debian_buster] by auto
  show ?thesis
    using tag_defaults_to_devel[of "VStr []" debian_buster Map.empty]
          tag_defaults_to_devel[of "VStr []" debian_buster "Map.empty(''tag'' \<mapsto> VStr [])"]
          tag_defaults_to_devel[of "VStr []" debian_buster "Map.empty(''tag'' \<mapsto> VStr ''v1'')"]
          c1 c2
    by (simp, metis)
qed

text \<open>
  C4, as stated, fails: the empty string has no entry in \<open>ports_by_arch\<close>, and the builder
  takes an empty \<open>client_arch\<close> as absent: it returns a context without a port.
\<close>

theorem empty_client_arch_is_no_error:
  "map_of (ports_by_arch debian_buster) [] = None
   \<and> get_template_context debian_buster (Map.empty(''client_arch'' \<mapsto> VStr []))
     = Inr (Map.empty(''client_arch'' \<mapsto> VStr [], ''distro'' \<mapsto> VStr ''debian:buster'',
                      ''distro_slug'' \<mapsto> VStr ''debian-buster'', ''tag'' \<mapsto> VStr ''devel''))"
  by (simp add: debian_buster_def Distro_get_template_context_def Let_def slugify_debian_buster)

text \<open>
  C4, amended. When \<open>client_arch\<close> is true (a non-empty string, or any other true value)
  and has no entry in the distribution's \<open>ports_by_arch\<close>, the builder raises
  \<open>KeyError\<close> for it; no port is substituted.
\<close>

theorem missing_port_raises_KeyError:
  assumes "context ''client_arch'' = Some v" and "truthy v"
    and "\<forall>s. v = VStr s \<longrightarrow> map_of (ports_by_arch self) s = None"
  shows "get_template_context self context = Inl (KeyError v)"
  using assms by (rule family_missing_port)

theorem missing_port_raises_KeyError_witness:
  "(Map.empty(''client_arch'' \<mapsto> VStr ''riscv64'')) ''client_arch'' = Some (VStr ''riscv64'')
   \<and> truthy (VStr ''riscv64'')
   \<and> map_of (ports_by_arch archlinux) ''riscv64'' = None
   \<and> get_template_context archlinux (Map.empty(''client_arch'' \<mapsto> VStr ''riscv64''))
       = Inl (KeyError (VStr ''riscv64''))"
  using missing_port_raises_KeyError[of "Map.empty(''client_arch'' \<mapsto> VStr ''riscv64'')"
          "VStr ''riscv64''" archlinux]
  by (simp add: archlinux_def)

text \<open>
  C2. For every distribution, given a \<open>host_arch\<close> among its host architectures and a
  \<open>client_arch\<close> among its client architectures, the builder returns a context whose
  compiler-path fragment is the empty string if the two are equal, and otherwise a
  non-empty string that ends with the client's registered toolchain path followed by
  \<open>/bin:\<close>.
\<close>

theorem compiler_path_part_of_context:
  assumes "context ''host_arch'' = Some (VStr h)" and "context ''client_arch'' = Some (VStr c)"
    and "h \<in> set (host_archs self)" and "c \<in> set (client_archs self)"
  shows "\<exists>context'. get_template_context self context = Inr context'
           \<and> (h = c \<longrightarrow> context' ''compiler_path_part'' = Some (VStr []))
           \<and> (h \<noteq> c \<longrightarrow> (\<exists>t part. map_of (toolchains_by_arch self) c = Some t
                 \<and> context' ''compiler_path_part'' = Some (VStr part)
                 \<and> part \<noteq> [] \<and> suffix (t @ ''/bin:'') part))"
proof -
  have ne: "h \<noteq> []" "c \<noteq> []" using assms(3,4) archs_nonempty by blast+
  from family_ok[OF assms] obtain context'
    where ok: "get_template_context self context = Inr context'" by blast
  from family_context_from_base[OF ok] obtain c1
    where b: "Distro_get_template_context self context = Inr c1"
      and r: "context' ''compiler_path_part'' = c1 ''compiler_path_part''" by blast
  from b obtain part
    where p: "get_compiler_path_part_by_arch self (VStr h) (VStr c) = Inr part"
      and c1: "c1 ''compiler_path_part'' = Some (VStr part)"
    unfolding base_both[OF assms(1,2) ne] by (auto split: sum.splits)
  note shape = compiler_path_part_shape[OF p]
  have "h = c \<longrightarrow> context' ''compiler_path_part'' = Some (VStr [])"
    using shape r c1 by simp
  moreover have "h \<noteq> c \<longrightarrow> (\<exists>t part. map_of (toolchains_by_arch self) c = Some t
                 \<and> context' ''compiler_path_part'' = Some (VStr part)
                 \<and> part \<noteq> [] \<and> suffix (t @ ''/bin:'') part)"
    using shape r c1 by auto
  ultimately show ?thesis using ok by blast
qed

theorem compiler_path_part_of_context_witness:
  "''amd64'' \<in> set (host_archs debian_buster) \<and> ''i386'' \<in> set (client_archs debian_buster)
   \<and> (\<exists>context'. get_template_context debian_buster
        (Map.empty(''host_arch'' \<mapsto> VStr ''amd64'', ''client_arch'' \<mapsto> VStr ''i386'')) = Inr context'
      \<and> (\<exists>part. context' ''compiler_path_part'' = Some (VStr part)
            \<and> part \<noteq> [] \<and> suffix ''i686-linux-gnu/bin:'' part))
   \<and> ''amd64'' \<in> set (host_archs archlinux) \<and> ''amd64'' \<in> set (client_archs archlinux)
   \<and> (\<exists>context'. get_template_context archlinux
        (Map.empty(''host_arch'' \<mapsto> VStr ''amd64'', ''client_arch'' \<mapsto> VStr ''amd64'')) = Inr context'
      \<and> context' ''compiler_path_part'' = Some (VStr []))"
  using compiler_path_part_of_context[of
          "Map.empty(''host_arch'' \<mapsto> VStr ''amd64'', ''client_arch'' \<mapsto> VStr ''i386'')"
          "''amd64''" "''i386''" debian_buster]
        compiler_path_part_of_context[of
          "Map.empty(''host_arch'' \<mapsto> VStr ''amd64'', ''client_arch'' \<mapsto> VStr ''amd64'')"
          "''amd64''" "''amd64''" archlinux]
  by (auto simp: debian_buster_def archlinux_def)



subsection \<open>Formatting\<close>

lemma markup_bad_is_last:
  "bad_last (markup_iter s)" "bad_last (parse_field acc s)"
proof (induction s and acc s rule: markup_iter_parse_field.induct)
  case 1
  then show ?case by simp
next
  case (2 c)
  then show ?case by simp
next
  case (3 c d ds)
  consider (esc_open) "c = CHR ''{''" "d = CHR ''{''"
    | (field) "c = CHR ''{''" "d \<noteq> CHR ''{''"
    | (esc_close) "c = CHR ''}''" "d = CHR ''}''"
    | (single) "c = CHR ''}''" "d \<noteq> CHR ''}''"
    | (lit) "c \<noteq> CHR ''{''" "c \<noteq> CHR ''}''"
    by blast
  then show ?case
  proof cases
    case esc_open
    with 3(1) show ?thesis by simp
  next
    case field
    with 3(2) show ?thesis by (simp del: parse_field.simps)
  next
    case esc_close
    with 3(3) show ?thesis by simp
  next
    case single
    then show ?thesis by simp
  next
    case lit
    with 3(4) show ?thesis by simp
  qed
next
  case (4 acc)
  then show ?case by simp
next
  case (5 acc c cs)
  then show ?case by simp
qed

lemma get_field_not_unmodelled: "get_field k ctx \<noteq> Inl Unmodelled"
  by (simp add: get_field_def split: option.splits)

lemma get_field_missing: "ctx k = None \<Longrightarrow> isl (get_field k ctx)"
  by (simp add: get_field_def)

lemma substitute_missing:
  assumes "bad_last ms" and "k \<in> set (placeholders ms)" and "ctx k = None"
  shows "\<exists>e. substitute ms ctx = Inl e \<and> e \<noteq> Unmodelled"
  using assms
proof (induction ms)
  case Nil
  then show ?case by simp
next
  case (Cons m ms)
  show ?case
  proof (cases m)
    case (Lit c)
    with Cons show ?thesis by (auto split: sum.splits)
  next
    case (Field k')
    show ?thesis
    proof (cases "get_field k' ctx")
      case (Inl e)
      with Field get_field_not_unmodelled[of k' ctx] show ?thesis by auto
    next
      case (Inr v)
      with get_field_missing[of ctx k'] Cons.prems have "k' \<noteq> k" by auto
      with Cons Field Inr show ?thesis by (auto split: sum.splits)
    qed
  next
    case (Bad e)
    with Cons.prems show ?thesis by (cases ms) simp_all
  qed
qed

lemma get_field_cong: "ctx' k = ctx k \<Longrightarrow> get_field k ctx' = get_field k ctx"
  by (simp add: get_field_def)

lemma substitute_cong:
  "(\<forall>k \<in> set (placeholders ms). ctx' k = ctx k) \<Longrightarrow> substitute ms ctx' = substitute ms ctx"
proof (induction ms)
  case Nil
  then show ?case by simp
next
  case (Cons m ms)
  show ?case
  proof (cases m)
    case (Lit c)
    with Cons show ?thesis by simp
  next
    case (Field k)
    with Cons.prems have "get_field k ctx' = get_field k ctx"
      by (intro get_field_cong) simp
    with Cons Field show ?thesis by (simp split: sum.splits)
  next
    case (Bad e)
    then show ?thesis by simp
  qed
qed

lemma str_format_cong:
  "(\<forall>k \<in> set (placeholders (markup_iter text)). ctx' k = ctx k) \<Longrightarrow>
     str_format text ctx' = str_format text ctx"
  by (simp add: str_format_def substitute_cong)

lemma str_format_missing:
  "k \<in> set (placeholders (markup_iter text)) \<Longrightarrow> ctx k = None \<Longrightarrow>
     \<exists>e. str_format text ctx = Inl e \<and> e \<noteq> Unmodelled"
  unfolding str_format_def by (rule substitute_missing[OF markup_bad_is_last(1)])

lemma render_returns_out: "render template out ctx fs = Inr (fs', p) \<Longrightarrow> p = out"
  by (auto simp: render_def Let_def split: sum.splits)

section \<open>The template renderer\<close>

text \<open>
  C5. For a template that can be read: if it has a replacement field whose key the context
  lacks, \<open>render\<close> raises (an exception of \<open>str.format\<close>, not a gap of the model); keys
  of the context that no field of the template names change nothing, neither the file
  written nor the result; and a successful \<open>render\<close> returns the output path it was given.
\<close>

theorem render_placeholders:
  assumes "open_read fs template = Inr text"
  shows "(k \<in> set (placeholders (markup_iter text)) \<and> ctx k = None \<longrightarrow>
            (\<exists>e. render template out ctx fs = Inl e \<and> e \<noteq> Unmodelled))
       \<and> (dom extra \<inter> set (placeholders (markup_iter text)) = {} \<longrightarrow>
            render template out (ctx ++ extra) fs = render template out ctx fs)
       \<and> (\<forall>fs' p. render template out ctx fs = Inr (fs', p) \<longrightarrow> p = out)"
proof (intro conjI impI allI)
  assume "k \<in> set (placeholders (markup_iter text)) \<and> ctx k = None"
  then obtain e where "str_format text ctx = Inl e" "e \<noteq> Unmodelled"
    using str_format_missing by blast
  with assms show "\<exists>e. render template out ctx fs = Inl e \<and> e \<noteq> Unmodelled"
    by (simp add: render_def)
next
  assume d: "dom extra \<inter> set (placeholders (markup_iter text)) = {}"
  have "\<forall>k \<in> set (placeholders (markup_iter text)). (ctx ++ extra) k = ctx k"
  proof
    fix k assume "k \<in> set (placeholders (markup_iter text))"
    with d have "k \<notin> dom extra" by blast
    then show "(ctx ++ extra) k = ctx k" by (simp add: map_add_dom_app_simps)
  qed
  then have "str_format text (ctx ++ extra) = str_format text ctx" by (rule str_format_cong)
  with assms show "render template out (ctx ++ extra) fs = render template out ctx fs"
    by (simp add: render_def)
next
  fix fs' p
  assume "render template out ctx fs = Inr (fs', p)"
  then show "p = out" by (rule render_returns_out)
qed


theorem render_placeholders_witness:
  "open_read fsw ''t/a.template'' = Inr ''x={a} y={b}''
   \<and> ''b'' \<in> set (placeholders (markup_iter ''x={a} y={b}''))
   \<and> render ''t/a.template'' ''o/a'' (Map.empty(''a'' \<mapsto> VInt 1)) fsw = Inl (KeyError (VStr ''b''))
   \<and> dom (Map.empty(''c'' \<mapsto> VNone)) \<inter> set (placeholders (markup_iter ''x={a} y={b}'')) = {}
   \<and> render ''t/a.template'' ''o/a''
         (Map.empty(''a'' \<mapsto> VInt 1, ''b'' \<mapsto> VStr ''z'') ++ Map.empty(''c'' \<mapsto> VNone)) fsw
       = render ''t/a.template'' ''o/a'' (Map.empty(''a'' \<mapsto> VInt 1, ''b'' \<mapsto> VStr ''z'')) fsw
   \<and> (\<exists>fs'. render ''t/a.template'' ''o/a''
                 (Map.empty(''a'' \<mapsto> VInt 1, ''b'' \<mapsto> VStr ''z'')) fsw = Inr (fs', ''o/a'')
          \<and> files fs' ''o/a'' = Some ''x=1 y=z'')"
proof -
  have f: "files fsw = [''t/a.template'' \<mapsto> ''x={a} y={b}'']" "dirs fsw = {''t''}"
    by (simp_all add: fsw_def)
  have r: "open_read fsw ''t/a.template'' = Inr ''x={a} y={b}''"
    by (simp add: open_read_def f plain_path_def)
  have p: "placeholders (markup_iter ''x={a} y={b}'') = [''a'', ''b'']"
    by simp
  have e: "str_format ''x={a} y={b}'' (Map.empty(''a'' \<mapsto> VInt 1)) = Inl (KeyError (VStr ''b''))"
    by (simp add: str_format_def get_field_def is_decimal_def digits.simps)
  have g: "str_format ''x={a} y={b}'' (Map.empty(''a'' \<mapsto> VInt 1, ''b'' \<mapsto> VStr ''z'')) = Inr ''x=1 y=z''"
    by (simp add: str_format_def get_field_def is_decimal_def digits.simps)
  have d: "os_path_dirname ''o/a'' = ''o''"
    by (simp add: os_path_dirname_def)
  have m: "os_makedirs ''o'' fsw = Inr (fsw\<lparr>dirs := {''t'', ''o''}\<rparr>)"
    by (simp add: os_makedirs_def f plain_path_def file_above_def ancestors_def insert_commute)
  have w: "open_write ''o/a'' ''x=1 y=z'' (fsw\<lparr>dirs := {''t'', ''o''}\<rparr>)
             = Inr (fsw\<lparr>dirs := {''t'', ''o''}, files := (files fsw)(''o/a'' \<mapsto> ''x=1 y=z'')\<rparr>)"
    by (simp add: open_write_def f plain_path_def file_above_def ancestors_def)
  have k: "render ''t/a.template'' ''o/a'' (Map.empty(''a'' \<mapsto> VInt 1)) fsw = Inl (KeyError (VStr ''b''))"
    by (simp add: render_def r e)
  have s: "render ''t/a.template'' ''o/a'' (Map.empty(''a'' \<mapsto> VInt 1, ''b'' \<mapsto> VStr ''z'')) fsw
             = Inr (fsw\<lparr>dirs := {''t'', ''o''}, files := (files fsw)(''o/a'' \<mapsto> ''x=1 y=z'')\<rparr>, ''o/a'')"
    by (simp add: render_def r g d m w os_path_exists_def plain_path_def f)
  have x: "dom (Map.empty(''c'' \<mapsto> VNone :: pyval)) \<inter> set [''a'', ''b''] = {}"
    by simp
  from render_placeholders[OF r, of "''b''" "Map.empty(''a'' \<mapsto> VInt 1, ''b'' \<mapsto> VStr ''z'')"
         "''o/a''" "Map.empty(''c'' \<mapsto> VNone)"] x
  have y: "render ''t/a.template'' ''o/a''
         (Map.empty(''a'' \<mapsto> VInt 1, ''b'' \<mapsto> VStr ''z'') ++ Map.empty(''c'' \<mapsto> VNone)) fsw
       = render ''t/a.template'' ''o/a'' (Map.empty(''a'' \<mapsto> VInt 1, ''b'' \<mapsto> VStr ''z'')) fsw"
    unfolding p by blast
  have z: "''b'' \<in> set (placeholders (markup_iter ''x={a} y={b}''))"
    unfolding p by simp
  have v: "dom (Map.empty(''c'' \<mapsto> VNone :: pyval)) \<inter> set (placeholders (markup_iter ''x={a} y={b}'')) = {}"
    unfolding p by (rule x)
  have u: "\<exists>fs'. render ''t/a.template'' ''o/a''
                 (Map.empty(''a'' \<mapsto> VInt 1, ''b'' \<mapsto> VStr ''z'')) fsw = Inr (fs', ''o/a'')
          \<and> files fs' ''o/a'' = Some ''x=1 y=z''"
    unfolding s by simp
  from r z k v y u show ?thesis by blast
qed

subsection \<open>Slugs as paths\<close>

lemma lower_char_not_sep:
  assumes "is_word_char c \<or> c = CHR ''-''"
  shows "lower_char c \<noteq> CHR ''/''" and "lower_char c \<noteq> CHR ''.''"
proof -
  have r: "(of_char c :: nat) < 256" by simp
  have a: "(of_char (lower_char c) :: nat) \<noteq> 47 \<and> (of_char (lower_char c) :: nat) \<noteq> 46"
    using assms r
    by (auto simp: lower_char_def is_word_char_def Let_def)
  show "lower_char c \<noteq> CHR ''/''" using a by auto
  show "lower_char c \<noteq> CHR ''.''" using a by auto
qed

lemma slugify_no_sep:
  "CHR ''/'' \<notin> set (slugify n)" "CHR ''.'' \<notin> set (slugify n)"
proof -
  have "\<And>c. c \<in> set n \<Longrightarrow> lower_char (if is_word_char c then c else CHR ''-'') \<noteq> CHR ''/''"
    by (rule lower_char_not_sep(1)) simp
  then show "CHR ''/'' \<notin> set (slugify n)"
    unfolding slugify_def by (simp add: image_iff) metis
  have "\<And>c. c \<in> set n \<Longrightarrow> lower_char (if is_word_char c then c else CHR ''-'') \<noteq> CHR ''.''"
    by (rule lower_char_not_sep(2)) simp
  then show "CHR ''.'' \<notin> set (slugify n)"
    unfolding slugify_def by (simp add: image_iff) metis
qed

lemma split_sep_no_sep: "CHR ''/'' \<notin> set s \<Longrightarrow> split_sep s = [s]"
proof (induction s)
  case Nil
  then show ?case by simp
next
  case (Cons a s)
  then have "a \<noteq> CHR ''/''" "split_sep s = [s]" by auto
  then show ?case by simp
qed

lemma parents_from_no_sep: "CHR ''/'' \<notin> set s \<Longrightarrow> parents_from acc s = []"
proof (induction s arbitrary: acc)
  case Nil
  then show ?case by simp
next
  case (Cons a s)
  then have "a \<noteq> CHR ''/''" "parents_from (acc @ [a]) s = []" by auto
  then show ?case by simp
qed

lemma slug_plain: "n \<noteq> [] \<Longrightarrow> plain_path (slugify n)"
proof -
  assume n: "n \<noteq> []"
  have s: "slugify n \<noteq> []" using n by (simp add: slugify_def)
  have d: "slugify n \<noteq> ''.''" "slugify n \<noteq> ''..''"
    using slugify_no_sep(2)[of n] by auto
  show ?thesis
    by (simp add: plain_path_def split_sep_no_sep[OF slugify_no_sep(1)] s d)
qed

lemma slug_no_file_above: "\<not> file_above fs (slugify n)"
  by (simp add: file_above_def ancestors_def parents_from_no_sep[OF slugify_no_sep(1)])

section \<open>The clean operation\<close>

text \<open>
  C8. When the output directory of a (named) distribution is a directory, \<open>clean\<close>
  returns, and afterwards neither the directory nor anything below it exists while every
  other path is as before; when nothing exists at that path, \<open>clean\<close> raises
  \<open>FileNotFoundError\<close> and is no no-op.
\<close>

theorem clean_removes_tree_or_raises:
  "(name self \<noteq> [] \<and> out_path self \<in> dirs fs \<and> files fs (out_path self) = None \<longrightarrow>
      (\<exists>fs'. Distro_clean self fs = Inr fs'
         \<and> (\<forall>q. inside (out_path self) q \<longrightarrow> q \<notin> dirs fs' \<and> files fs' q = None)
         \<and> (\<forall>q. \<not> inside (out_path self) q \<longrightarrow>
                (q \<in> dirs fs' \<longleftrightarrow> q \<in> dirs fs) \<and> files fs' q = files fs q)))
   \<and> (out_path self \<notin> dirs fs \<and> files fs (out_path self) = None \<longrightarrow>
        Distro_clean self fs = Inl FileNotFoundError)"
proof (intro conjI impI)
  assume a: "name self \<noteq> [] \<and> out_path self \<in> dirs fs \<and> files fs (out_path self) = None"
  then have "plain_path (out_path self)" "out_path self \<noteq> []"
    using slug_plain[of "name self"] by (auto simp: out_path_def slugify_def)
  with a have "Distro_clean self fs
      = Inr (fs\<lparr>files := (\<lambda>q. if inside (out_path self) q then None else files fs q),
                dirs := {q \<in> dirs fs. \<not> inside (out_path self) q}\<rparr>)"
    using slug_no_file_above[of fs "name self"]
    by (simp add: Distro_clean_def shutil_rmtree_def out_path_def)
  then show "\<exists>fs'. Distro_clean self fs = Inr fs'
         \<and> (\<forall>q. inside (out_path self) q \<longrightarrow> q \<notin> dirs fs' \<and> files fs' q = None)
         \<and> (\<forall>q. \<not> inside (out_path self) q \<longrightarrow>
                (q \<in> dirs fs' \<longleftrightarrow> q \<in> dirs fs) \<and> files fs' q = files fs q)"
    by simp
next
  assume a: "out_path self \<notin> dirs fs \<and> files fs (out_path self) = None"
  show "Distro_clean self fs = Inl FileNotFoundError"
  proof (cases "name self = []")
    case True
    then show ?thesis by (simp add: Distro_clean_def shutil_rmtree_def out_path_def slugify_def)
  next
    case False
    then have "plain_path (out_path self)" "out_path self \<noteq> []"
      using slug_plain[of "name self"] by (auto simp: out_path_def slugify_def)
    with a show ?thesis
      using slug_no_file_above[of fs "name self"]
      by (simp add: Distro_clean_def shutil_rmtree_def out_path_def)
  qed
qed

theorem clean_removes_tree_or_raises_witness:
  "name archlinux \<noteq> [] \<and> out_path archlinux \<in> dirs fsc \<and> files fsc (out_path archlinux) = None
   \<and> (\<exists>fs'. Distro_clean archlinux fsc = Inr fs'
         \<and> ''archlinux'' \<notin> dirs fs' \<and> ''archlinux/host'' \<notin> dirs fs'
         \<and> files fs' ''archlinux/host/Dockerfile.amd64'' = None
         \<and> ''archlinux-like'' \<in> dirs fs'
         \<and> files fs' ''archlinux-like/x'' = Some ''y'')
   \<and> out_path debian_buster \<notin> dirs fsc \<and> files fsc (out_path debian_buster) = None
   \<and> Distro_clean debian_buster fsc = Inl FileNotFoundError"
proof -
  have o: "out_path archlinux = ''archlinux''" "out_path debian_buster = ''debian-buster''"
    by (simp_all add: out_path_def archlinux_def debian_buster_def slugify_archlinux
          slugify_debian_buster)
  have f: "files fsc = [''archlinux/host/Dockerfile.amd64'' \<mapsto> ''x'', ''archlinux-like/x'' \<mapsto> ''y'']"
    "dirs fsc = {''archlinux'', ''archlinux/host'', ''archlinux-like''}"
    by (simp_all add: fsc_def)
  have n: "name archlinux \<noteq> []"
    by (simp add: archlinux_def)
  have h1: "name archlinux \<noteq> [] \<and> out_path archlinux \<in> dirs fsc \<and> files fsc (out_path archlinux) = None"
    by (simp add: o f n)
  have h2: "out_path debian_buster \<notin> dirs fsc \<and> files fsc (out_path debian_buster) = None"
    by (simp add: o f)
  have i: "inside ''archlinux'' ''archlinux''" "inside ''archlinux'' ''archlinux/host''"
    "inside ''archlinux'' ''archlinux/host/Dockerfile.amd64''"
    "\<not> inside ''archlinux'' ''archlinux-like''" "\<not> inside ''archlinux'' ''archlinux-like/x''"
    by (simp_all add: inside_def)
  from clean_removes_tree_or_raises[of archlinux fsc] h1 obtain fs'
    where c: "Distro_clean archlinux fsc = Inr fs'"
      and g: "\<forall>q. inside ''archlinux'' q \<longrightarrow> q \<notin> dirs fs' \<and> files fs' q = None"
      and k: "\<forall>q. \<not> inside ''archlinux'' q \<longrightarrow>
                (q \<in> dirs fs' \<longleftrightarrow> q \<in> dirs fsc) \<and> files fs' q = files fsc q"
    unfolding o by blast
  have r: "''archlinux'' \<notin> dirs fs'" "''archlinux/host'' \<notin> dirs fs'"
    "files fs' ''archlinux/host/Dockerfile.amd64'' = None"
    using g i by blast+
  have s: "''archlinux-like'' \<in> dirs fs'" "files fs' ''archlinux-like/x'' = Some ''y''"
    using k i(4,5) by (simp_all add: f)
  from clean_removes_tree_or_raises[of debian_buster fsc] h2
  have e: "Distro_clean debian_buster fsc = Inl FileNotFoundError" by blast
  from h1 h2 c r s e show ?thesis by blast
qed


subsection \<open>Directories made by copytree\<close>

lemma and_then_Inr: "and_then m f = Inr y \<longleftrightarrow> (\<exists>x. m = Inr x \<and> f x = Inr y)"
  by (cases m) (simp_all add: and_then_def)

lemma parents_from_mem: "acc @ a \<in> set (parents_from acc (a @ CHR ''/'' # r))"
proof (induction a arbitrary: acc)
  case Nil
  then show ?case by simp
next
  case (Cons c a)
  from Cons[of "acc @ [c]"] show ?case by (cases "c = CHR ''/''") simp_all
qed

lemma ancestors_mem: "a \<in> set (ancestors (a @ ''/'' @ r))"
  using parents_from_mem[of "[]" a r] by (simp add: ancestors_def)

lemma makedirs_dirs:
  "os_makedirs p fs = Inr fs' \<Longrightarrow> dirs fs' = dirs fs \<union> set (ancestors p) \<union> {p}"
  by (auto simp: os_makedirs_def split: if_splits)

lemma makedirs_existing: "p \<in> dirs fs \<Longrightarrow> isl (os_makedirs p fs)"
  by (simp add: os_makedirs_def)

lemma copytree_makes_ancestors:
  assumes "shutil_copytree src dst fs = Inr fs'"
  shows "set (ancestors dst) \<subseteq> dirs fs'"
proof -
  from assms obtain fs1 where m: "os_makedirs dst fs = Inr fs1"
    and r: "dirs fs1 \<subseteq> dirs fs'"
    by (auto simp: shutil_copytree_def split: if_splits sum.splits)
  from makedirs_dirs[OF m] r show ?thesis by auto
qed

lemma copytree_existing: "dst \<in> dirs fs \<Longrightarrow> isl (shutil_copytree src dst fs)"
  using makedirs_existing[of dst fs]
  by (auto simp: shutil_copytree_def split: sum.splits)

lemma build_context_scripts:
  "path_join (path_join a ''client/build-context'') ''scripts''
     = path_join a ''client/build-context'' @ ''/'' @ ''scripts''"
  by (simp add: path_join_def)

section \<open>Rendering twice\<close>

text \<open>
  C1. Rendering \<open>archlinux\<close> does not succeed even once, whatever the project tree and
  the keyword arguments are: \<open>render_systemd_distccd\<close> copies the client scripts to
  \<open>client/build-context/scripts\<close>, which creates \<open>client/build-context\<close>, and then
  calls \<open>shutil.copytree\<close> with \<open>client/build-context\<close> itself as the destination,
  which must not exist. Every run therefore ends in an exception, the first one as well as
  a repeated one.
\<close>

theorem archlinux_render_always_raises:
  "isl (distro_render (ArchLinuxLike n) kwargs fs)"
proof (rule ccontr)
  assume "\<not> isl (distro_render (ArchLinuxLike n) kwargs fs)"
  then obtain fs' where "distro_render (ArchLinuxLike n) kwargs fs = Inr fs'"
    by (cases "distro_render (ArchLinuxLike n) kwargs fs") auto
  then obtain fs2 fs3
    where c1: "shutil_copytree (path_join (template_path (ArchLinuxLike n)) ''client/scripts'')
                 (path_join (path_join (out_path (ArchLinuxLike n)) ''client/build-context'')
                    ''scripts'') fs2 = Inr fs3"
      and c2: "isl (shutil_copytree ''shared-build-context/client''
                 (path_join (out_path (ArchLinuxLike n)) ''client/build-context'') fs3) = False"
    by (auto simp: and_then_Inr render_systemd_distccd_def Let_def)
  from copytree_makes_ancestors[OF c1]
  have "path_join (out_path (ArchLinuxLike n)) ''client/build-context'' \<in> dirs fs3"
    unfolding build_context_scripts using ancestors_mem by blast
  from copytree_existing[OF this] c2 show False by simp
qed


subsection \<open>What a render writes\<close>

lemma open_read_Inr: "open_read fs p = Inr text \<Longrightarrow> files fs p = Some text"
  by (auto simp: open_read_def split: if_splits option.splits)

lemma makedirs_files: "os_makedirs p fs = Inr fs' \<Longrightarrow> files fs' = files fs"
  by (auto simp: os_makedirs_def split: if_splits)

lemma open_write_files:
  "open_write p text fs = Inr fs' \<Longrightarrow> files fs' = (files fs)(p \<mapsto> text)"
  by (auto simp: open_write_def split: if_splits)

lemma render_files:
  assumes "render t out ctx fs = Inr (fs', p)"
  shows "\<exists>text rendered. files fs t = Some text \<and> str_format text ctx = Inr rendered
           \<and> files fs' = (files fs)(out \<mapsto> rendered)"
proof -
  from assms obtain tx rendered there fs1
    where r: "open_read fs t = Inr tx"
      and f: "str_format tx ctx = Inr rendered"
      and m: "(if \<not> there then os_makedirs (os_path_dirname out) fs else Inr fs) = Inr fs1"
      and w: "open_write out rendered fs1 = Inr fs'"
    by (auto simp: render_def Let_def split: sum.splits)
  from m have "files fs1 = files fs"
    by (cases there) (auto dest: makedirs_files)
  with open_write_files[OF w] open_read_Inr[OF r] f show ?thesis by auto
qed

lemma render_frame:
  assumes "render t out ctx fs = Inr r" and "q \<noteq> out"
  shows "files (fst r) q = files fs q"
proof -
  obtain fs' p where r: "r = (fs', p)" by (cases r)
  from render_files[OF assms(1)[unfolded r]] assms(2) show ?thesis
    unfolding r by auto
qed

lemma render_one_files:
  assumes "render_one self kw kwargs t out fs = Inr fs'"
  shows "\<exists>args ctx text rendered. call_kwargs kw kwargs = Inr args
           \<and> get_template_context self args = Inr ctx
           \<and> files fs t = Some text \<and> str_format text ctx = Inr rendered
           \<and> files fs' = (files fs)(out \<mapsto> rendered)"
proof -
  from assms obtain args ctx r
    where a: "call_kwargs kw kwargs = Inr args"
      and c: "get_template_context self args = Inr ctx"
      and r: "render t out ctx fs = Inr r" and s: "fs' = fst r"
    by (auto simp: render_one_def and_then_Inr)
  obtain fs1 p where p: "r = (fs1, p)" by (cases r)
  from render_files[OF r[unfolded p]] a c s p show ?thesis by auto
qed

lemma render_one_frame:
  assumes "render_one self kw kwargs t out fs = Inr fs'" and "q \<noteq> out"
  shows "files fs' q = files fs q"
  using render_one_files[OF assms(1)] assms(2) by auto

lemma for_each_Cons_Inr:
  "for_each (x # xs) body fs = Inr fs' \<longleftrightarrow>
     (\<exists>s. body x fs = Inr s \<and> for_each xs body s = Inr fs')"
  by (cases "body x fs") simp_all

lemma for_each_keeps:
  assumes "for_each xs body fs = Inr fs'"
    and "\<And>x s s'. x \<in> set xs \<Longrightarrow> body x s = Inr s' \<Longrightarrow> P s \<Longrightarrow> P s'"
    and "P fs"
  shows "P fs'"
  using assms
proof (induction xs arbitrary: fs)
  case Nil
  then show ?case by simp
next
  case (Cons x xs)
  from Cons.prems(1) obtain s where s: "body x fs = Inr s" and r: "for_each xs body s = Inr fs'"
    unfolding for_each_Cons_Inr by blast
  have "P s" using Cons.prems(2)[OF _ s Cons.prems(3)] by simp
  show ?case
  proof (rule Cons.IH[OF r _ \<open>P s\<close>])
    fix y t t'
    assume "y \<in> set xs" "body y t = Inr t'" "P t"
    then show "P t'" using Cons.prems(2)[of y t t'] by simp
  qed
qed

lemma for_each_compiler_keeps:
  assumes "for_each_compiler self body fs = Inr fs'"
    and "\<And>h c s s'. h \<in> set (host_archs self) \<Longrightarrow> body h c s = Inr s' \<Longrightarrow> P s \<Longrightarrow> P s'"
    and "P fs"
  shows "P fs'"
proof (rule for_each_keeps[where P = P, OF assms(1)[unfolded for_each_compiler_def] _ assms(3)])
  fix h s s'
  assume h: "h \<in> set (host_archs self)" and p: "P s"
    and b: "and_then (subscript (compilers_by_host_arch self) (VStr h))
              (\<lambda>compilers. for_each compilers (body h) s) = Inr s'"
  from b obtain cs where "for_each cs (body h) s = Inr s'"
    by (auto simp: and_then_Inr)
  then show "P s'"
    by (rule for_each_keeps[where P = P]) (use assms(2) h p in blast)+
qed

subsection \<open>The output paths of debian:buster\<close>

lemma debian_buster_paths:
  "out_path (DebianLike ''debian:buster'') = ''debian-buster''"
  "docker_compose_file_path (DebianLike ''debian:buster'') h c
     = ''debian-buster/docker-compose.debian-buster.host-'' @ h @ ''.client-'' @ c @ ''.yml''"
  "path_join (path_join ''debian-buster'' ''host'') (''Dockerfile.'' @ h)
     = ''debian-buster/host/Dockerfile.'' @ h"
  "path_join (path_join ''debian-buster'' ''client'') (''Dockerfile.'' @ c)
     = ''debian-buster/client/Dockerfile.'' @ c"
  "path_join (path_join ''debian-buster'' ''host/build-context/etc/default'')
       (''distccd.host-'' @ h @ ''.client-'' @ c)
     = ''debian-buster/host/build-context/etc/default/distccd.host-'' @ h @ ''.client-'' @ c"
  "path_join (path_join ''debian-buster'' ''host/build-context/etc/init.d'')
       (''distccd.host-'' @ h @ ''.client-'' @ c)
     = ''debian-buster/host/build-context/etc/init.d/distccd.host-'' @ h @ ''.client-'' @ c"
  "path_join (path_join ''debian-buster'' ''host/build-context/etc/logrotate.d'')
       (''distccd.host-'' @ h @ ''.client-'' @ c)
     = ''debian-buster/host/build-context/etc/logrotate.d/distccd.host-'' @ h @ ''.client-'' @ c"
  by (simp_all add: out_path_def slugify_debian_buster docker_compose_file_path_def path_join_def)

lemma debian_templates:
  "path_join (template_path (DebianLike n)) ''host/Dockerfile.template''
     = ''debian-like/host/Dockerfile.template''"
  "path_join (template_path (DebianLike n)) ''client/Dockerfile.template''
     = ''debian-like/client/Dockerfile.template''"
  "path_join (template_path (DebianLike n)) ''docker-compose.template.yml''
     = ''debian-like/docker-compose.template.yml''"
  "path_join (template_path (DebianLike n)) ''host/build-context/etc/default/distccd.template''
     = ''debian-like/host/build-context/etc/default/distccd.template''"
  "path_join (template_path (DebianLike n)) ''host/build-context/etc/init.d/distccd.template''
     = ''debian-like/host/build-context/etc/init.d/distccd.template''"
  "path_join (template_path (DebianLike n)) ''host/build-context/etc/logrotate.d/distccd.template''
     = ''debian-like/host/build-context/etc/logrotate.d/distccd.template''"
  by (simp_all add: path_join_def)

lemma compose_path_other:
  assumes "(h, c) \<noteq> (''amd64'', ''i386'')"
    and "h \<in> set (host_archs (DebianLike n))" and "c \<in> set (client_archs (DebianLike n))"
  shows "''debian-buster/docker-compose.debian-buster.host-amd64.client-i386.yml''
           \<noteq> ''debian-buster/docker-compose.debian-buster.host-'' @ h @ ''.client-'' @ c @ ''.yml''"
  using assms by auto


section \<open>The compose file of debian:buster\<close>

text \<open>
  C6. The compose file for host \<open>amd64\<close> and client \<open>i386\<close> of \<open>debian:buster\<close>
  has the path \<open>debian-buster/docker-compose.debian-buster.host-amd64.client-i386.yml\<close>;
  the context built for it binds \<open>host_port\<close> to 3603 and \<open>tag\<close> to \<open>v1\<close>; and
  whenever \<open>render debian:buster --tag v1\<close> returns, the file at that path holds the
  compose template of the project tree formatted with that context.
\<close>

theorem debian_buster_compose_file:
  assumes "main_render the_registry ''debian:buster'' ''v1'' fs = Inr fs'"
  shows "docker_compose_file_path debian_buster ''amd64'' ''i386''
           = ''debian-buster/docker-compose.debian-buster.host-amd64.client-i386.yml''
       \<and> (\<exists>ctx tx rendered.
             get_template_context debian_buster
               (Map.empty(''tag'' \<mapsto> VStr ''v1'', ''host_arch'' \<mapsto> VStr ''amd64'',
                          ''client_arch'' \<mapsto> VStr ''i386'')) = Inr ctx
           \<and> ctx ''host_port'' = Some (VInt 3603) \<and> ctx ''tag'' = Some (VStr ''v1'')
           \<and> files fs ''debian-like/docker-compose.template.yml'' = Some tx
           \<and> str_format tx ctx = Inr rendered
           \<and> files fs' ''debian-buster/docker-compose.debian-buster.host-amd64.client-i386.yml''
                 = Some rendered)"
proof -
  define d where "d = DebianLike ''debian:buster''"
  define kw :: "context" where "kw = Map.empty(''tag'' \<mapsto> VStr ''v1'')"
  define T where "T = ''debian-like/docker-compose.template.yml''"
  define P where "P = ''debian-buster/docker-compose.debian-buster.host-amd64.client-i386.yml''"
  have hosts: "host_archs d = ''amd64'' # [''i386'', ''arm32v7'', ''arm64v8'', ''ppc64le'', ''s390x'']"
    and clients: "client_archs d
          = ''amd64'' # ''i386'' # [''arm32v7'', ''arm64v8'', ''ppc64le'', ''s390x'']"
    by (simp_all add: d_def)
  have out: "out_path d = ''debian-buster''"
    by (simp add: d_def debian_buster_paths)
  have path: "docker_compose_file_path d h c
        = ''debian-buster/docker-compose.debian-buster.host-'' @ h @ ''.client-'' @ c @ ''.yml''" for h c
    by (simp add: d_def debian_buster_paths)
  have get: "Distro_get the_registry ''debian:buster'' = Inr d"
    by (simp add: Distro_get_def the_registry_def Distro_init_def debian_buster_def archlinux_def d_def)
  from assms obtain fs1 fs2 fs3
    where H: "render_dockerfile_host d kw fs = Inr fs1"
      and C: "render_dockerfile_client d kw fs1 = Inr fs2"
      and M: "render_docker_compose d kw fs2 = Inr fs3"
      and I: "render_initd_distccd d kw fs3 = Inr fs'"
    by (auto simp: main_render_def get and_then_Inr Distro_render_def d_def kw_def)
  \<comment> \<open>The Dockerfile loops leave the compose template alone.\<close>
  have t1: "files fs1 T = files fs T"
  proof (rule for_each_keeps[where P = "\<lambda>s. files s T = files fs T",
            OF H[unfolded render_dockerfile_host_def]])
    fix h s s'
    assume st: "render_one d [(''host_arch'', VStr h)] kw
                  (path_join (template_path d) ''host/Dockerfile.template'')
                  (path_join (path_join (out_path d) ''host'') (''Dockerfile.'' @ h)) s = Inr s'"
      and q: "files s T = files fs T"
    have "T \<noteq> path_join (path_join (out_path d) ''host'') (''Dockerfile.'' @ h)"
      by (simp add: out path_join_def T_def)
    from render_one_frame[OF st this] q show "files s' T = files fs T" by simp
  qed simp
  have t2: "files fs2 T = files fs T"
  proof (rule for_each_keeps[where P = "\<lambda>s. files s T = files fs T",
            OF C[unfolded render_dockerfile_client_def] _ t1])
    fix c s s'
    assume st: "render_one d [(''client_arch'', VStr c)] kw
                  (path_join (template_path d) ''client/Dockerfile.template'')
                  (path_join (path_join (out_path d) ''client'') (''Dockerfile.'' @ c)) s = Inr s'"
      and q: "files s T = files fs T"
    have "T \<noteq> path_join (path_join (out_path d) ''client'') (''Dockerfile.'' @ c)"
      by (simp add: out path_join_def T_def)
    from render_one_frame[OF st this] q show "files s' T = files fs T" by simp
  qed
  \<comment> \<open>The compose loop: the pair (amd64, i386) is its second step.\<close>
  define step where "step = (\<lambda>h c. render_one d [(''host_arch'', VStr h), (''client_arch'', VStr c)] kw
        (path_join (template_path d) ''docker-compose.template.yml'')
        (docker_compose_file_path d h c))"
  from M obtain fsA
    where inner: "for_each (client_archs d) (step ''amd64'') fs2 = Inr fsA"
      and outer: "for_each [''i386'', ''arm32v7'', ''arm64v8'', ''ppc64le'', ''s390x'']
                    (\<lambda>h. for_each (client_archs d) (step h)) fsA = Inr fs3"
    unfolding render_docker_compose_def hosts for_each_Cons_Inr step_def by blast
  from inner obtain fsa fsb
    where s1: "step ''amd64'' ''amd64'' fs2 = Inr fsa"
      and s2: "step ''amd64'' ''i386'' fsa = Inr fsb"
      and s3: "for_each [''arm32v7'', ''arm64v8'', ''ppc64le'', ''s390x''] (step ''amd64'') fsb = Inr fsA"
    unfolding clients for_each_Cons_Inr by blast
  have tp: "path_join (template_path d) ''docker-compose.template.yml'' = T"
    by (simp add: d_def T_def path_join_def)
  have step_frame: "files s' q = files s q"
    if "step h c s = Inr s'" and "q \<noteq> docker_compose_file_path d h c" for h c s s' q
    using that unfolding step_def by (rule render_one_frame)
  have t3: "files fsa T = files fs T"
    using step_frame[OF s1, of T] t2 by (simp add: path T_def)
  from render_one_files[OF s2[unfolded step_def]] obtain args ctx tx rendered
    where a: "call_kwargs [(''host_arch'', VStr ''amd64''), (''client_arch'', VStr ''i386'')] kw = Inr args"
      and c: "get_template_context d args = Inr ctx"
      and x: "files fsa T = Some tx" and f: "str_format tx ctx = Inr rendered"
      and w: "files fsb = (files fsa)(P \<mapsto> rendered)"
    unfolding tp path P_def by auto
  have args: "args = Map.empty(''tag'' \<mapsto> VStr ''v1'', ''host_arch'' \<mapsto> VStr ''amd64'',
                               ''client_arch'' \<mapsto> VStr ''i386'')"
    using a by (simp add: kw_def)
  \<comment> \<open>Nothing after that step writes the file again.\<close>
  have p1: "files fsA P = files fsb P"
  proof (rule for_each_keeps[where P = "\<lambda>s. files s P = files fsb P", OF s3])
    fix c t t'
    assume c: "c \<in> set [''arm32v7'', ''arm64v8'', ''ppc64le'', ''s390x'']"
      and st: "step ''amd64'' c t = Inr t'" and q: "files t P = files fsb P"
    have "P \<noteq> docker_compose_file_path d ''amd64'' c"
      using c by (auto simp: path P_def)
    from step_frame[OF st this] q show "files t' P = files fsb P" by simp
  qed simp
  have p2: "files fs3 P = files fsb P"
  proof (rule for_each_keeps[where P = "\<lambda>s. files s P = files fsb P", OF outer _ p1])
    fix h s s'
    assume h: "h \<in> set [''i386'', ''arm32v7'', ''arm64v8'', ''ppc64le'', ''s390x'']"
      and l: "for_each (client_archs d) (step h) s = Inr s'" and p: "files s P = files fsb P"
    show "files s' P = files fsb P"
    proof (rule for_each_keeps[where P = "\<lambda>s. files s P = files fsb P", OF l _ p])
      fix c t t'
      assume "c \<in> set (client_archs d)" and st: "step h c t = Inr t'" and q: "files t P = files fsb P"
      have "P \<noteq> docker_compose_file_path d h c"
        using h by (auto simp: path P_def)
      from step_frame[OF st this] q show "files t' P = files fsb P" by simp
    qed
  qed
  have p3: "files fs' P = files fsb P"
  proof (rule for_each_compiler_keeps[where P = "\<lambda>s. files s P = files fsb P",
            OF I[unfolded render_initd_distccd_def] _ p2])
    fix h c s s'
    assume q: "files s P = files fsb P"
      and b: "and_then (call_kwargs [(''host_arch'', VStr h), (''client_arch'', VStr c)] kw)
       (\<lambda>args. and_then (get_template_context d args)
          (\<lambda>ctx. and_then (render
               (path_join (template_path d) ''host/build-context/etc/default/distccd.template'')
               (path_join (path_join (out_path d) ''host/build-context/etc/default'')
                  (''distccd.host-'' @ h @ ''.client-'' @ c)) ctx s)
             (\<lambda>r1. and_then (render
               (path_join (template_path d) ''host/build-context/etc/init.d/distccd.template'')
               (path_join (path_join (out_path d) ''host/build-context/etc/init.d'')
                  (''distccd.host-'' @ h @ ''.client-'' @ c)) ctx (fst r1))
             (\<lambda>r2. and_then (render
               (path_join (template_path d) ''host/build-context/etc/logrotate.d/distccd.template'')
               (path_join (path_join (out_path d) ''host/build-context/etc/logrotate.d'')
                  (''distccd.host-'' @ h @ ''.client-'' @ c)) ctx (fst r2))
             (\<lambda>r3. Inr (fst r3)))))) = Inr s'"
    from b obtain cx r1 r2 r3
      where r1: "render (path_join (template_path d) ''host/build-context/etc/default/distccd.template'')
               (''debian-buster/host/build-context/etc/default/distccd.host-'' @ h @ ''.client-'' @ c)
               cx s = Inr r1"
        and r2: "render (path_join (template_path d) ''host/build-context/etc/init.d/distccd.template'')
               (''debian-buster/host/build-context/etc/init.d/distccd.host-'' @ h @ ''.client-'' @ c)
               cx (fst r1) = Inr r2"
        and r3: "render (path_join (template_path d) ''host/build-context/etc/logrotate.d/distccd.template'')
               (''debian-buster/host/build-context/etc/logrotate.d/distccd.host-'' @ h @ ''.client-'' @ c)
               cx (fst r2) = Inr r3"
        and s': "s' = fst r3"
      unfolding and_then_Inr out debian_buster_paths by auto
    have "files (fst r1) P = files s P" by (rule render_frame[OF r1]) (simp add: P_def)
    moreover have "files (fst r2) P = files (fst r1) P" by (rule render_frame[OF r2]) (simp add: P_def)
    moreover have "files (fst r3) P = files (fst r2) P" by (rule render_frame[OF r3]) (simp add: P_def)
    ultimately show "files s' P = files fsb P" using q s' by simp
  qed
  \<comment> \<open>The context of that step.\<close>
  from family_context_from_base[OF c] obtain c1
    where b: "Distro_get_template_context d args = Inr c1"
      and hp: "ctx ''host_port'' = c1 ''host_port''" by blast
  from base_port[OF b, of "''i386''"] have "c1 ''host_port'' = Some (VInt 3603)"
    by (auto simp: args d_def)
  with hp have port: "ctx ''host_port'' = Some (VInt 3603)" by simp
  from family_tag_result[OF c] have tag: "ctx ''tag'' = Some (VStr ''v1'')"
    by (simp add: args)
  have written: "files fs' P = Some rendered"
    using p3 w by simp
  have "docker_compose_file_path debian_buster ''amd64'' ''i386'' = P"
    using path[of "''amd64''" "''i386''"] by (simp add: d_def debian_buster_def P_def)
  moreover have "get_template_context debian_buster
               (Map.empty(''tag'' \<mapsto> VStr ''v1'', ''host_arch'' \<mapsto> VStr ''amd64'',
                          ''client_arch'' \<mapsto> VStr ''i386'')) = Inr ctx"
    using c by (simp add: args d_def debian_buster_def)
  moreover have "files fs T = Some tx" using x t3 by simp
  ultimately show ?thesis
    using port tag f written unfolding P_def T_def by blast
qed


subsection \<open>Paths made of a directory and a name\<close>

lemma split_sep_nonempty: "split_sep s \<noteq> []"
  by (induction s) (simp_all split: list.splits)

lemma split_sep_append: "split_sep (a @ CHR ''/'' # b) = split_sep a @ split_sep b"
proof (induction a)
  case Nil
  then show ?case by simp
next
  case (Cons c a)
  show ?case
  proof (cases "c = CHR ''/''")
    case True
    with Cons show ?thesis by simp
  next
    case False
    obtain x xs where x: "split_sep a = x # xs"
      using split_sep_nonempty[of a] by (cases "split_sep a") auto
    with False Cons show ?thesis by simp
  qed
qed

lemma plain_path_join:
  assumes "plain_path dn" and "CHR ''/'' \<notin> set b" and "b \<noteq> []" and "b \<noteq> ''.''" and "b \<noteq> ''..''"
  shows "plain_path (dn @ ''/'' @ b)"
  using assms by (simp add: plain_path_def split_sep_append split_sep_no_sep)

lemma parents_from_append:
  "parents_from acc (a @ CHR ''/'' # b)
     = parents_from acc a @ [acc @ a] @ parents_from (acc @ a @ ''/'') b"
proof (induction a arbitrary: acc)
  case Nil
  then show ?case by simp
next
  case (Cons c a)
  from Cons[of "acc @ [c]"] show ?case by (cases "c = CHR ''/''") simp_all
qed

lemma ancestors_join:
  "CHR ''/'' \<notin> set b \<Longrightarrow> ancestors (dn @ ''/'' @ b) = ancestors dn @ [dn]"
  using parents_from_append[of "[]" dn b]
  by (simp add: ancestors_def parents_from_no_sep)

lemma dirname_join:
  assumes "CHR ''/'' \<notin> set b" and "dn \<noteq> []" and "last dn \<noteq> CHR ''/''"
  shows "os_path_dirname (dn @ ''/'' @ b) = dn"
proof -
  have "dropWhile (\<lambda>c. c \<noteq> CHR ''/'') (rev b @ CHR ''/'' # rev dn)
          = dropWhile (\<lambda>c. c \<noteq> CHR ''/'') (CHR ''/'' # rev dn)"
    by (rule dropWhile_append2) (use assms(1) in auto)
  then have h: "rev (dropWhile (\<lambda>c. c \<noteq> CHR ''/'') (rev (dn @ ''/'' @ b))) = dn @ ''/''"
    by simp
  obtain x xs where r: "rev dn = x # xs" using assms(2) by (cases "rev dn") auto
  have "x = last dn" using r by (metis last_rev list.sel(1) rev_rev_ident hd_rev)
  then have x: "x \<noteq> CHR ''/''" using assms(3) by simp
  have d: "rev (dropWhile (\<lambda>c. c = CHR ''/'') (rev (dn @ ''/''))) = dn"
    using r x by simp
  have "x \<in> set dn" using r by (metis list.set_intros(1) set_rev)
  then have a: "\<not> list_all (\<lambda>c. c = CHR ''/'') (dn @ ''/'')"
    using x by (auto simp: list_all_iff)
  have n: "dn @ ''/'' \<noteq> []" by simp
  show ?thesis
    unfolding os_path_dirname_def h Let_def
    by (simp only: a n d simp_thms if_True)
qed

lemma no_braces_format:
  assumes "CHR ''{'' \<notin> set s" and "CHR ''}'' \<notin> set s"
  shows "str_format s ctx = Inr s"
proof -
  have "markup_iter s = map Lit s" using assms
  proof (induction s rule: induct_list012)
    case 1
    then show ?case by simp
  next
    case (2 x)
    then show ?case by auto
  next
    case (3 x y zs)
    then show ?case by auto
  qed
  moreover have "substitute (map Lit s) ctx = Inr s" for s :: string
    by (induction s) simp_all
  ultimately show ?thesis by (simp add: str_format_def)
qed

lemma for_each_invariant:
  assumes "I fs"
    and "\<And>x s. x \<in> set xs \<Longrightarrow> I s \<Longrightarrow> \<exists>s'. body x s = Inr s' \<and> I s'"
  shows "\<exists>fs'. for_each xs body fs = Inr fs' \<and> I fs'"
  using assms
proof (induction xs arbitrary: fs)
  case Nil
  then show ?case by simp
next
  case (Cons x xs)
  from Cons.prems(2)[of x fs] Cons.prems(1) obtain s where s: "body x fs = Inr s" "I s"
    by auto
  have "\<exists>fs'. for_each xs body s = Inr fs' \<and> I fs'"
  proof (rule Cons.IH[OF s(2)])
    fix y t
    assume "y \<in> set xs" "I t"
    then show "\<exists>s'. body y t = Inr s' \<and> I s'" using Cons.prems(2)[of y t] by simp
  qed
  with s(1) show ?case by simp
qed


subsection \<open>Rendering the sample tree of debian:buster\<close>

lemma debian_template_facts:
  "list_all (\<lambda>t. t \<noteq> [] \<and> plain_path t \<and> t \<notin> set (debian_template_dirs @ debian_out_dirs))
     debian_template_files"
  by (simp add: debian_template_files_def debian_template_dirs_def debian_out_dirs_def plain_path_def)

lemma debian_out_dir_facts:
  "list_all (\<lambda>dn. dn \<noteq> [] \<and> last dn \<noteq> CHR ''/'' \<and> plain_path dn
               \<and> set (ancestors dn) \<subseteq> set debian_out_dirs
               \<and> list_all (\<lambda>a. set (ancestors a) \<subseteq> set (ancestors dn)) (ancestors dn))
     debian_out_dirs"
  by (simp add: debian_out_dirs_def plain_path_def ancestors_def)

lemma fsd_rendering_start: "fsd_rendering fsd"
  by (simp add: fsd_rendering_def fsd_def debian_template_files_def debian_template_dirs_def
        debian_out_dirs_def)

lemma render_step:
  assumes inv: "fsd_rendering s"
    and t: "t \<in> set debian_template_files" and tx: "files fsd t = Some tx"
    and f: "str_format tx ctx = Inr r"
    and dn: "dn \<in> set debian_out_dirs"
    and b: "CHR ''/'' \<notin> set b" "b \<noteq> []" "b \<noteq> ''.''" "b \<noteq> ''..''"
    and fresh: "dn @ ''/'' @ b \<notin> set (debian_template_dirs @ debian_out_dirs)"
               "dn @ ''/'' @ b \<notin> set debian_template_files"
  shows "\<exists>s'. render t (dn @ ''/'' @ b) ctx s = Inr (s', dn @ ''/'' @ b) \<and> fsd_rendering s'"
proof -
  define out where "out = dn @ ''/'' @ b"
  define D where "D = set (debian_template_dirs @ debian_out_dirs)"
  from inv have i1: "\<And>t. t \<in> set debian_template_files \<Longrightarrow> files s t = files fsd t"
    and i2: "dirs s \<subseteq> D"
    and i3: "\<And>q. q \<in> D \<Longrightarrow> files s q = None"
    and i4: "\<And>p. p \<in> set debian_out_dirs \<Longrightarrow> p \<in> dirs s \<Longrightarrow> set (ancestors p) \<subseteq> dirs s"
    by (auto simp: fsd_rendering_def list_all_iff D_def)
  from debian_template_facts t have tf: "t \<noteq> []" "plain_path t" "t \<notin> D"
    by (auto simp: list_all_iff D_def)
  from debian_out_dir_facts dn have df: "dn \<noteq> []" "last dn \<noteq> CHR ''/''" "plain_path dn"
    "set (ancestors dn) \<subseteq> set debian_out_dirs"
    "\<And>a. a \<in> set (ancestors dn) \<Longrightarrow> set (ancestors a) \<subseteq> set (ancestors dn)"
    by (auto simp: list_all_iff)
  have dD: "dn \<in> D" and aD: "set (ancestors dn) \<subseteq> D"
    using dn df(4) by (auto simp: D_def)
  \<comment> \<open>reading and formatting the template\<close>
  have "t \<notin> dirs s" using tf(3) i2 by blast
  then have rd: "open_read s t = Inr tx"
    using tf i1[OF t] tx by (simp add: open_read_def)
  \<comment> \<open>the directory of the output\<close>
  have dname: "os_path_dirname out = dn"
    unfolding out_def by (rule dirname_join[OF b(1) df(1,2)])
  have ex: "os_path_exists s dn = Inr (dn \<in> dirs s)"
    using df(1,3) i3[OF dD] by (simp add: os_path_exists_def)
  have nofile: "\<not> file_above s dn"
    using aD i3 by (auto simp: file_above_def list_ex_iff)
  define s1 where "s1 = (if dn \<in> dirs s then s
                         else s\<lparr>dirs := dirs s \<union> set (ancestors dn) \<union> {dn}\<rparr>)"
  have mk: "(if \<not> (dn \<in> dirs s) then os_makedirs dn s else Inr s) = Inr s1"
    using df(1,3) nofile i3[OF dD] by (simp add: s1_def os_makedirs_def)
  have s1f: "files s1 = files s" by (simp add: s1_def)
  have s1d: "dn \<in> dirs s1" "set (ancestors dn) \<subseteq> dirs s1" "dirs s1 \<subseteq> D"
    using i2 i4[OF dn] dD aD by (auto simp: s1_def)
  have s1c: "set (ancestors p) \<subseteq> dirs s1" if "p \<in> set debian_out_dirs" "p \<in> dirs s1" for p
  proof (cases "p \<in> dirs s")
    case True
    with i4[OF that(1)] show ?thesis by (auto simp: s1_def)
  next
    case False
    with that(2) have "p = dn \<or> p \<in> set (ancestors dn)"
      by (auto simp: s1_def split: if_splits)
    with s1d(2) df(5) show ?thesis by blast
  qed
  \<comment> \<open>writing the output\<close>
  have anc: "ancestors out = ancestors dn @ [dn]"
    unfolding out_def by (rule ancestors_join[OF b(1)])
  have pl: "plain_path out"
    unfolding out_def by (rule plain_path_join[OF df(3) b])
  have oD: "out \<notin> D" using fresh(1) by (simp add: out_def D_def)
  have "out \<notin> dirs s1" using oD s1d(3) by blast
  moreover have "\<not> file_above s1 out"
    using aD dD i3 by (auto simp: file_above_def list_ex_iff anc s1f)
  moreover have "list_all (\<lambda>a. a \<in> dirs s1) (ancestors out)"
    using s1d by (auto simp: anc list_all_iff)
  moreover have "out \<noteq> []" by (simp add: out_def)
  ultimately have wr: "open_write out r s1 = Inr (s1\<lparr>files := (files s1)(out \<mapsto> r)\<rparr>)"
    using pl by (simp add: open_write_def)
  have res: "render t out ctx s = Inr (s1\<lparr>files := (files s1)(out \<mapsto> r)\<rparr>, out)"
    by (simp add: render_def rd f dname ex mk wr)
  have "fsd_rendering (s1\<lparr>files := (files s1)(out \<mapsto> r)\<rparr>)"
    unfolding fsd_rendering_def list_all_iff
  proof (intro conjI ballI impI)
    fix u assume u: "u \<in> set debian_template_files"
    then have "u \<noteq> out" using fresh(2) by (auto simp: out_def)
    then show "files (s1\<lparr>files := (files s1)(out \<mapsto> r)\<rparr>) u = files fsd u"
      using i1[OF u] by (simp add: s1f)
  next
    show "dirs (s1\<lparr>files := (files s1)(out \<mapsto> r)\<rparr>) \<subseteq> set (debian_template_dirs @ debian_out_dirs)"
      using s1d(3) by (simp add: D_def)
  next
    fix q assume "q \<in> set (debian_template_dirs @ debian_out_dirs)"
    then have q: "q \<in> D" by (simp add: D_def)
    then have "q \<noteq> out" using oD by blast
    then show "files (s1\<lparr>files := (files s1)(out \<mapsto> r)\<rparr>) q = None"
      using i3[OF q] by (simp add: s1f)
  next
    fix p assume "p \<in> set debian_out_dirs" "p \<in> dirs (s1\<lparr>files := (files s1)(out \<mapsto> r)\<rparr>)"
    then show "set (ancestors p) \<subseteq> dirs (s1\<lparr>files := (files s1)(out \<mapsto> r)\<rparr>)"
      using s1c[of p] by simp
  qed
  with res show ?thesis unfolding out_def by blast
qed


lemma render_one_step:
  assumes "fsd_rendering s"
    and "call_kwargs kw kwargs = Inr args" and "get_template_context self args = Inr ctx"
    and "t \<in> set debian_template_files" and "files fsd t = Some tx"
    and "str_format tx ctx = Inr r"
    and "dn \<in> set debian_out_dirs"
    and "CHR ''/'' \<notin> set b" "b \<noteq> []" "b \<noteq> ''.''" "b \<noteq> ''..''"
    and "dn @ ''/'' @ b \<notin> set (debian_template_dirs @ debian_out_dirs)"
        "dn @ ''/'' @ b \<notin> set debian_template_files"
  shows "\<exists>s'. render_one self kw kwargs t (dn @ ''/'' @ b) s = Inr s' \<and> fsd_rendering s'"
proof -
  from render_step[OF assms(1) assms(4-13)] obtain s'
    where "render t (dn @ ''/'' @ b) ctx s = Inr (s', dn @ ''/'' @ b)" "fsd_rendering s'"
    by blast
  with assms(2,3) show ?thesis by (simp add: render_one_def and_then_def)
qed

lemma debian_arch_no_sep:
  "h \<in> set (host_archs (DebianLike n)) \<Longrightarrow> CHR ''/'' \<notin> set h"
  "c \<in> set (client_archs (DebianLike n)) \<Longrightarrow> CHR ''/'' \<notin> set c"
  by auto

lemma debian_compilers:
  "h \<in> set (host_archs (DebianLike n)) \<Longrightarrow>
     \<exists>cs. subscript (compilers_by_host_arch (DebianLike n)) (VStr h) = Inr cs
          \<and> set cs \<subseteq> set (client_archs (DebianLike n))"
  by (auto simp: subscript_def)

lemma family_host_only:
  assumes "context ''host_arch'' = Some (VStr h)" and "context ''client_arch'' = None"
    and "h \<in> set (host_archs (DebianLike n))"
  shows "\<exists>c'. get_template_context (DebianLike n) context = Inr c'"
proof -
  have "\<not> truthy (dict_get context ''client_arch'')" using assms(2) by (simp add: dict_get_def)
  from base_no_client[OF this] obtain c1
    where b: "Distro_get_template_context (DebianLike n) context = Inr c1" by blast
  have hc: "dict_get c1 ''host_arch'' = VStr h" "dict_get c1 ''client_arch'' = VNone"
    using base_keeps(2,3)[OF b] assms(1,2) by (simp_all add: dict_get_def)
  have "h \<noteq> []" using assms(3) archs_nonempty by blast
  with packages_ok[OF assms(3)] b hc show ?thesis by (auto simp: Let_def)
qed

lemma family_client_only:
  assumes "context ''client_arch'' = Some (VStr c)" and "context ''host_arch'' = None"
    and "c \<in> set (client_archs (DebianLike n))"
  shows "\<exists>c'. get_template_context (DebianLike n) context = Inr c'"
proof -
  have ne: "c \<noteq> []" using assms(3) archs_nonempty by blast
  from ports_ok[OF assms(3)] obtain p
    where "subscript (ports_by_arch (DebianLike n)) (VStr c) = Inr p" by blast
  moreover have "dict_get context ''client_arch'' = VStr c" "dict_get context ''host_arch'' = VNone"
    using assms(1,2) by (simp_all add: dict_get_def)
  ultimately have "\<exists>c1. Distro_get_template_context (DebianLike n) context = Inr c1"
    using ne
    by (cases "truthy (dict_get context ''tag'')")
       (simp_all add: Distro_get_template_context_def Let_def)
  then obtain c1 where b: "Distro_get_template_context (DebianLike n) context = Inr c1"
    by blast
  have hc: "dict_get c1 ''host_arch'' = VNone" "dict_get c1 ''client_arch'' = VStr c"
    using base_keeps(2,3)[OF b] assms(1,2) by (simp_all add: dict_get_def)
  with flags_ok[OF assms(3)] b ne show ?thesis by (auto simp: Let_def)
qed

lemma compose_format:
  "ctx ''host_port'' = Some a \<Longrightarrow> ctx ''tag'' = Some b \<Longrightarrow>
     str_format ''port {host_port} tag {tag}'' ctx = Inr (''port '' @ str a @ '' tag '' @ str b)"
  by (simp add: str_format_def get_field_def is_decimal_def)

lemma family_both_port_tag:
  assumes "context ''host_arch'' = Some (VStr h)" and "context ''client_arch'' = Some (VStr c)"
    and "h \<in> set (host_archs self)" and "c \<in> set (client_archs self)"
  shows "\<exists>c' p v. get_template_context self context = Inr c'
           \<and> c' ''host_port'' = Some p \<and> c' ''tag'' = Some v"
proof -
  from family_ok[OF assms] obtain c' where c: "get_template_context self context = Inr c'"
    by blast
  have ne: "c \<noteq> []" using assms(4) archs_nonempty by blast
  from family_context_from_base[OF c] obtain c1
    where b: "Distro_get_template_context self context = Inr c1"
      and hp: "c' ''host_port'' = c1 ''host_port''" by blast
  from base_port[OF b assms(2) ne] hp family_tag_result[OF c] c show ?thesis by auto
qed

lemma for_each_compiler_invariant:
  assumes "I fs"
    and "\<And>h. h \<in> set (host_archs self) \<Longrightarrow>
           \<exists>cs. subscript (compilers_by_host_arch self) (VStr h) = Inr cs
                \<and> set cs \<subseteq> set (client_archs self)"
    and "\<And>h c s. h \<in> set (host_archs self) \<Longrightarrow> c \<in> set (client_archs self) \<Longrightarrow> I s
           \<Longrightarrow> \<exists>s'. body h c s = Inr s' \<and> I s'"
  shows "\<exists>fs'. for_each_compiler self body fs = Inr fs' \<and> I fs'"
  unfolding for_each_compiler_def
proof (rule for_each_invariant[where I = I, OF assms(1)])
  fix h s
  assume h: "h \<in> set (host_archs self)" and s: "I s"
  from assms(2)[OF h] obtain cs
    where cs: "subscript (compilers_by_host_arch self) (VStr h) = Inr cs"
      and sub: "set cs \<subseteq> set (client_archs self)" by blast
  have "\<exists>s'. for_each cs (body h) s = Inr s' \<and> I s'"
  proof (rule for_each_invariant[where I = I, OF s])
    fix c t
    assume "c \<in> set cs" "I t"
    with sub assms(3)[OF h, of c t] show "\<exists>s'. body h c t = Inr s' \<and> I s'" by blast
  qed
  with cs show "\<exists>s'. and_then (subscript (compilers_by_host_arch self) (VStr h))
                       (\<lambda>compilers. for_each compilers (body h) s) = Inr s' \<and> I s'"
    by (simp add: and_then_def)
qed


lemma and_then_Inr_eq: "and_then (Inr x) f = f x"
  by (simp add: and_then_def)

lemma debian_buster_render_succeeds:
  assumes "fsd_rendering s"
  shows "\<exists>s'. distro_render (DebianLike ''debian:buster'') (Map.empty(''tag'' \<mapsto> VStr v)) s = Inr s'
              \<and> fsd_rendering s'"
proof -
  define d where "d = DebianLike ''debian:buster''"
  define kw :: "context" where "kw = Map.empty(''tag'' \<mapsto> VStr v)"
  have out: "out_path d = ''debian-buster''"
    by (simp add: d_def debian_buster_paths)
  have plain_text: "str_format ''FROM debian:buster'' c = Inr ''FROM debian:buster''"
    "str_format ''STARTDISTCC=true'' c = Inr ''STARTDISTCC=true''"
    "str_format ''#!/bin/sh'' c = Inr ''#!/bin/sh''"
    "str_format ''/var/log/distccd.log'' c = Inr ''/var/log/distccd.log''" for c
    by (rule no_braces_format; simp)+
  \<comment> \<open>the host Dockerfiles\<close>
  have "\<exists>s1. render_dockerfile_host d kw s = Inr s1 \<and> fsd_rendering s1"
    unfolding render_dockerfile_host_def
  proof (rule for_each_invariant[where I = fsd_rendering, OF assms])
    fix h t
    assume h: "h \<in> set (host_archs d)" and t: "fsd_rendering t"
    have p: "path_join (path_join (out_path d) ''host'') (''Dockerfile.'' @ h)
               = ''debian-buster/host'' @ ''/'' @ (''Dockerfile.'' @ h)"
      by (simp add: out path_join_def)
    have tp: "path_join (template_path d) ''host/Dockerfile.template''
               = ''debian-like/host/Dockerfile.template''"
      by (simp add: d_def path_join_def)
    have a: "call_kwargs [(''host_arch'', VStr h)] kw = Inr (kw(''host_arch'' \<mapsto> VStr h))"
      by (simp add: kw_def)
    obtain ctx where c: "get_template_context d (kw(''host_arch'' \<mapsto> VStr h)) = Inr ctx"
      using family_host_only[of "kw(''host_arch'' \<mapsto> VStr h)" h "''debian:buster''"] h
      by (auto simp: d_def kw_def)
    have sep: "CHR ''/'' \<notin> set h" using debian_arch_no_sep(1) h unfolding d_def by blast
    show "\<exists>s'. render_one d [(''host_arch'', VStr h)] kw
                 (path_join (template_path d) ''host/Dockerfile.template'')
                 (path_join (path_join (out_path d) ''host'') (''Dockerfile.'' @ h)) t = Inr s'
               \<and> fsd_rendering s'"
      unfolding p tp
      by (rule render_one_step[where tx = "''FROM debian:buster''"
                and r = "''FROM debian:buster''", OF t a c])
         (simp_all add: debian_template_files_def fsd_def plain_text debian_out_dirs_def
            debian_template_dirs_def sep)
  qed
  then obtain s1 where H: "render_dockerfile_host d kw s = Inr s1" and i1: "fsd_rendering s1"
    by blast
  \<comment> \<open>the client Dockerfiles\<close>
  have "\<exists>s2. render_dockerfile_client d kw s1 = Inr s2 \<and> fsd_rendering s2"
    unfolding render_dockerfile_client_def
  proof (rule for_each_invariant[where I = fsd_rendering, OF i1])
    fix c t
    assume c: "c \<in> set (client_archs d)" and t: "fsd_rendering t"
    have p: "path_join (path_join (out_path d) ''client'') (''Dockerfile.'' @ c)
               = ''debian-buster/client'' @ ''/'' @ (''Dockerfile.'' @ c)"
      by (simp add: out path_join_def)
    have tp: "path_join (template_path d) ''client/Dockerfile.template''
               = ''debian-like/client/Dockerfile.template''"
      by (simp add: d_def path_join_def)
    have a: "call_kwargs [(''client_arch'', VStr c)] kw = Inr (kw(''client_arch'' \<mapsto> VStr c))"
      by (simp add: kw_def)
    obtain ctx where x: "get_template_context d (kw(''client_arch'' \<mapsto> VStr c)) = Inr ctx"
      using family_client_only[of "kw(''client_arch'' \<mapsto> VStr c)" c "''debian:buster''"] c
      by (auto simp: d_def kw_def)
    have sep: "CHR ''/'' \<notin> set c" using debian_arch_no_sep(2) c unfolding d_def by blast
    show "\<exists>s'. render_one d [(''client_arch'', VStr c)] kw
                 (path_join (template_path d) ''client/Dockerfile.template'')
                 (path_join (path_join (out_path d) ''client'') (''Dockerfile.'' @ c)) t = Inr s'
               \<and> fsd_rendering s'"
      unfolding p tp
      by (rule render_one_step[where tx = "''FROM debian:buster''"
                and r = "''FROM debian:buster''", OF t a x])
         (simp_all add: debian_template_files_def fsd_def plain_text debian_out_dirs_def
            debian_template_dirs_def sep)
  qed
  then obtain s2 where C: "render_dockerfile_client d kw s1 = Inr s2" and i2: "fsd_rendering s2"
    by blast
  \<comment> \<open>the compose files\<close>
  have "\<exists>s3. render_docker_compose d kw s2 = Inr s3 \<and> fsd_rendering s3"
    unfolding render_docker_compose_def
  proof (rule for_each_invariant[where I = fsd_rendering, OF i2])
    fix h u
    assume h: "h \<in> set (host_archs d)" and u: "fsd_rendering u"
    show "\<exists>s'. for_each (client_archs d) (\<lambda>client_arch.
             render_one d [(''host_arch'', VStr h), (''client_arch'', VStr client_arch)] kw
               (path_join (template_path d) ''docker-compose.template.yml'')
               (docker_compose_file_path d h client_arch)) u = Inr s' \<and> fsd_rendering s'"
    proof (rule for_each_invariant[where I = fsd_rendering, OF u])
      fix c t
      assume c: "c \<in> set (client_archs d)" and t: "fsd_rendering t"
      have p: "docker_compose_file_path d h c
                 = ''debian-buster'' @ ''/'' @ (''docker-compose.debian-buster.host-'' @ h
                      @ ''.client-'' @ c @ ''.yml'')"
        by (simp add: d_def debian_buster_paths)
      have tp: "path_join (template_path d) ''docker-compose.template.yml''
                 = ''debian-like/docker-compose.template.yml''"
        by (simp add: d_def path_join_def)
      have a: "call_kwargs [(''host_arch'', VStr h), (''client_arch'', VStr c)] kw
                 = Inr (kw(''host_arch'' \<mapsto> VStr h, ''client_arch'' \<mapsto> VStr c))"
        by (simp add: kw_def)
      obtain ctx pt vt
        where x: "get_template_context d (kw(''host_arch'' \<mapsto> VStr h, ''client_arch'' \<mapsto> VStr c))
                    = Inr ctx"
          and k: "ctx ''host_port'' = Some pt" "ctx ''tag'' = Some vt"
        using family_both_port_tag[of "kw(''host_arch'' \<mapsto> VStr h, ''client_arch'' \<mapsto> VStr c)"
                h c d] h c
        by auto
      have sep: "CHR ''/'' \<notin> set h" "CHR ''/'' \<notin> set c"
        using debian_arch_no_sep h c unfolding d_def by blast+
      show "\<exists>s'. render_one d [(''host_arch'', VStr h), (''client_arch'', VStr c)] kw
                   (path_join (template_path d) ''docker-compose.template.yml'')
                   (docker_compose_file_path d h c) t = Inr s'
                 \<and> fsd_rendering s'"
        unfolding p tp
        by (rule render_one_step[where tx = "''port {host_port} tag {tag}''"
                  and r = "''port '' @ str pt @ '' tag '' @ str vt", OF t a x])
           (simp_all add: debian_template_files_def fsd_def compose_format[OF k]
              debian_out_dirs_def debian_template_dirs_def sep)
    qed
  qed
  then obtain s3 where M: "render_docker_compose d kw s2 = Inr s3" and i3: "fsd_rendering s3"
    by blast
  \<comment> \<open>the files of the init script\<close>
  have "\<exists>s4. render_initd_distccd d kw s3 = Inr s4 \<and> fsd_rendering s4"
    unfolding render_initd_distccd_def
  proof (rule for_each_compiler_invariant[where I = fsd_rendering, OF i3])
    fix h
    assume "h \<in> set (host_archs d)"
    then show "\<exists>cs. subscript (compilers_by_host_arch d) (VStr h) = Inr cs
                  \<and> set cs \<subseteq> set (client_archs d)"
      unfolding d_def by (rule debian_compilers)
  next
    fix h c t
    assume h: "h \<in> set (host_archs d)" and c: "c \<in> set (client_archs d)"
      and t: "fsd_rendering t"
    define b where "b = ''distccd.host-'' @ h @ ''.client-'' @ c"
    have sep: "CHR ''/'' \<notin> set b" "b \<noteq> []" "b \<noteq> ''.''" "b \<noteq> ''..''"
      using debian_arch_no_sep h c unfolding d_def b_def by auto
    have p: "path_join (path_join (out_path d) ''host/build-context/etc/default'') b
               = ''debian-buster/host/build-context/etc/default'' @ ''/'' @ b"
      "path_join (path_join (out_path d) ''host/build-context/etc/init.d'') b
               = ''debian-buster/host/build-context/etc/init.d'' @ ''/'' @ b"
      "path_join (path_join (out_path d) ''host/build-context/etc/logrotate.d'') b
               = ''debian-buster/host/build-context/etc/logrotate.d'' @ ''/'' @ b"
      by (simp_all add: out path_join_def b_def)
    have tp: "path_join (template_path d) ''host/build-context/etc/default/distccd.template''
               = ''debian-like/host/build-context/etc/default/distccd.template''"
      "path_join (template_path d) ''host/build-context/etc/init.d/distccd.template''
               = ''debian-like/host/build-context/etc/init.d/distccd.template''"
      "path_join (template_path d) ''host/build-context/etc/logrotate.d/distccd.template''
               = ''debian-like/host/build-context/etc/logrotate.d/distccd.template''"
      by (simp_all add: d_def path_join_def)
    have a: "call_kwargs [(''host_arch'', VStr h), (''client_arch'', VStr c)] kw
               = Inr (kw(''host_arch'' \<mapsto> VStr h, ''client_arch'' \<mapsto> VStr c))"
      by (simp add: kw_def)
    obtain ctx
      where x: "get_template_context d (kw(''host_arch'' \<mapsto> VStr h, ''client_arch'' \<mapsto> VStr c))
                  = Inr ctx"
      using family_ok[of "kw(''host_arch'' \<mapsto> VStr h, ''client_arch'' \<mapsto> VStr c)" h c d] h c
      by auto
    obtain t1 where r1: "render ''debian-like/host/build-context/etc/default/distccd.template''
          (''debian-buster/host/build-context/etc/default'' @ ''/'' @ b) ctx t
          = Inr (t1, ''debian-buster/host/build-context/etc/default'' @ ''/'' @ b)"
      and j1: "fsd_rendering t1"
      using render_step[where tx = "''STARTDISTCC=true''" and r = "''STARTDISTCC=true''"
              and dn = "''debian-buster/host/build-context/etc/default''" and b = b
              and t = "''debian-like/host/build-context/etc/default/distccd.template''"
              and ctx = ctx, OF t] sep
      by (auto simp: debian_template_files_def fsd_def plain_text debian_out_dirs_def
            debian_template_dirs_def b_def)
    obtain t2 where r2: "render ''debian-like/host/build-context/etc/init.d/distccd.template''
          (''debian-buster/host/build-context/etc/init.d'' @ ''/'' @ b) ctx t1
          = Inr (t2, ''debian-buster/host/build-context/etc/init.d'' @ ''/'' @ b)"
      and j2: "fsd_rendering t2"
      using render_step[where tx = "''#!/bin/sh''" and r = "''#!/bin/sh''"
              and dn = "''debian-buster/host/build-context/etc/init.d''" and b = b
              and t = "''debian-like/host/build-context/etc/init.d/distccd.template''"
              and ctx = ctx, OF j1] sep
      by (auto simp: debian_template_files_def fsd_def plain_text debian_out_dirs_def
            debian_template_dirs_def b_def)
    obtain t3 where r3: "render ''debian-like/host/build-context/etc/logrotate.d/distccd.template''
          (''debian-buster/host/build-context/etc/logrotate.d'' @ ''/'' @ b) ctx t2
          = Inr (t3, ''debian-buster/host/build-context/etc/logrotate.d'' @ ''/'' @ b)"
      and j3: "fsd_rendering t3"
      using render_step[where tx = "''/var/log/distccd.log''" and r = "''/var/log/distccd.log''"
              and dn = "''debian-buster/host/build-context/etc/logrotate.d''" and b = b
              and t = "''debian-like/host/build-context/etc/logrotate.d/distccd.template''"
              and ctx = ctx, OF j2] sep
      by (auto simp: debian_template_files_def fsd_def plain_text debian_out_dirs_def
            debian_template_dirs_def b_def)
    show "\<exists>s'. and_then (call_kwargs [(''host_arch'', VStr h), (''client_arch'', VStr c)] kw)
       (\<lambda>args. and_then (get_template_context d args)
          (\<lambda>ctx. and_then (render
               (path_join (template_path d) ''host/build-context/etc/default/distccd.template'')
               (path_join (path_join (out_path d) ''host/build-context/etc/default'')
                  (''distccd.host-'' @ h @ ''.client-'' @ c)) ctx t)
             (\<lambda>r1. and_then (render
               (path_join (template_path d) ''host/build-context/etc/init.d/distccd.template'')
               (path_join (path_join (out_path d) ''host/build-context/etc/init.d'')
                  (''distccd.host-'' @ h @ ''.client-'' @ c)) ctx (fst r1))
             (\<lambda>r2. and_then (render
               (path_join (template_path d) ''host/build-context/etc/logrotate.d/distccd.template'')
               (path_join (path_join (out_path d) ''host/build-context/etc/logrotate.d'')
                  (''distccd.host-'' @ h @ ''.client-'' @ c)) ctx (fst r2))
             (\<lambda>r3. Inr (fst r3)))))) = Inr s' \<and> fsd_rendering s'"
      unfolding b_def[symmetric] p tp a and_then_Inr_eq x r1 r2 r3 fst_conv
      using j3 by blast
  qed
  then obtain s4 where I: "render_initd_distccd d kw s3 = Inr s4" and i4: "fsd_rendering s4"
    by blast
  have "distro_render d kw s = Inr s4"
    unfolding d_def distro_render.simps Distro_render_def H[unfolded d_def] and_then_Inr_eq
      C[unfolded d_def] M[unfolded d_def] I[unfolded d_def]
    by (rule refl)
  with i4 show ?thesis unfolding d_def kw_def by blast
qed

theorem debian_buster_compose_file_witness:
  "\<exists>fs'. main_render the_registry ''debian:buster'' ''v1'' fsd = Inr fs'
         \<and> files fs' ''debian-buster/docker-compose.debian-buster.host-amd64.client-i386.yml''
              = Some ''port 3603 tag v1''"
proof -
  have get: "Distro_get the_registry ''debian:buster'' = Inr (DebianLike ''debian:buster'')"
    by (simp add: Distro_get_def the_registry_def Distro_init_def debian_buster_def archlinux_def)
  from debian_buster_render_succeeds[OF fsd_rendering_start, of "''v1''"] obtain fs'
    where ok: "main_render the_registry ''debian:buster'' ''v1'' fsd = Inr fs'"
    by (auto simp: main_render_def get and_then_def)
  from debian_buster_compose_file[OF ok] obtain ctx tx rendered
    where k: "ctx ''host_port'' = Some (VInt 3603)" "ctx ''tag'' = Some (VStr ''v1'')"
      and x: "files fsd ''debian-like/docker-compose.template.yml'' = Some tx"
      and f: "str_format tx ctx = Inr rendered"
      and w: "files fs' ''debian-buster/docker-compose.debian-buster.host-amd64.client-i386.yml''
                = Some rendered"
    by blast
  from x have "tx = ''port {host_port} tag {tag}''" by (simp add: fsd_def)
  with f compose_format[OF k] have "rendered = ''port 3603 tag v1''"
    by (simp add: digits.simps)
  with ok w show ?thesis by blast
qed


end
